theory Spec2Isabelle
  imports Main
begin

section \<open>The Title Master Report parser of \<^verbatim>\<open>dataloader/tmreport.py\<close>\<close>

text \<open>
  The class \<^verbatim>\<open>TitleMasterReport\<close> reads a worksheet through openpyxl. The embedding
  follows Python 3: a \<^verbatim>\<open>str\<close> is a list of characters, each character standing for
  its code point (code points 0 to 255 are covered), an \<^verbatim>\<open>int\<close> is unbounded, and
  every exception the code can raise is a value of type \<open>error\<close> returned on the left
  of a sum.
\<close>

subsection \<open>Values and errors\<close>

datatype error = AttributeError | IndexError | KeyError | SyntaxError | TypeError | ValueError

text \<open>
  The value of a worksheet cell as openpyxl hands it out: \<^verbatim>\<open>None\<close> for an empty
  cell, a \<^verbatim>\<open>str\<close>, an \<^verbatim>\<open>int\<close>, a \<^verbatim>\<open>bool\<close>, or any other value
  (a float, a date), which is carried as the text that \<^verbatim>\<open>str()\<close> gives for it.
\<close>

datatype cell = CNone | CStr string | CInt int | CBool bool | COther string

text \<open>
  A worksheet of openpyxl: the value at a row and a column, both counted from 1, and the
  extent of the sheet, that is, the last row and the last column that hold a cell when
  the sheet is asked (\<^verbatim>\<open>max_row\<close>, \<^verbatim>\<open>max_column\<close>).
\<close>

record worksheet =
  ws_cell :: "nat \<Rightarrow> nat \<Rightarrow> cell"
  ws_max_row :: nat
  ws_max_column :: nat

text \<open>
  The object state set up by \<^verbatim>\<open>__init__\<close>. The file name (the base name of the
  path on disk) plays no part in parsing and is left out.
\<close>

record report =
  r_worksheet :: worksheet
  r_report_id :: cell
  r_reporting_period :: cell

definition TitleMasterReport :: "worksheet \<Rightarrow> report" where
  "TitleMasterReport ws =
     \<lparr>r_worksheet = ws, r_report_id = ws_cell ws 2 2, r_reporting_period = ws_cell ws 10 2\<rparr>"

definition PERIODS :: "string list" where
  "PERIODS = ['''', ''jan'', ''feb'', ''mar'', ''apr'', ''may'', ''jun'', ''jul'', ''aug'',
     ''sep'', ''oct'', ''nov'', ''dec'']"

definition MAX_COLS :: nat where "MAX_COLS = 16384"
definition MAX_ROWS :: nat where "MAX_ROWS = 1048576"
definition HEADER_ROW :: nat where "HEADER_ROW = 14"
definition DATA_ROW_START :: nat where "DATA_ROW_START = 15"
definition DATA_COL_START :: nat where "DATA_COL_START = 1"

subsection \<open>The Python operations the class uses\<close>

text \<open>\<^verbatim>\<open>xs[i]\<close> for an index that is not negative: IndexError out of range.\<close>

definition py_index :: "'a list \<Rightarrow> nat \<Rightarrow> error + 'a" where
  "py_index xs i = (if i < length xs then Inr (xs ! i) else Inl IndexError)"

text \<open>
  \<^verbatim>\<open>xs[i:j]\<close>: a negative bound counts from the end, every bound is clamped to the
  length, and the slice is empty when the upper bound is not above the lower one.
\<close>

definition slice_bound :: "nat \<Rightarrow> int \<Rightarrow> nat" where
  "slice_bound n i = (if i < 0 then nat (max 0 (int n + i)) else min n (nat i))"

definition py_slice :: "'a list \<Rightarrow> int \<Rightarrow> int \<Rightarrow> 'a list" where
  "py_slice xs i j =
     (let lo = slice_bound (length xs) i; hi = slice_bound (length xs) j
      in take (hi - lo) (drop lo xs))"

text \<open>
  \<^verbatim>\<open>s.split(sep)\<close> for a separator of one character: the text before the first
  separator, then the split of the text behind it; the whole text when there is no
  separator. The result is never the empty list.
\<close>

function py_split :: "char \<Rightarrow> string \<Rightarrow> string list" where
  "py_split sep s =
     (case dropWhile (\<lambda>c. c \<noteq> sep) s of
        [] \<Rightarrow> [s]
      | _ # rest \<Rightarrow> takeWhile (\<lambda>c. c \<noteq> sep) s # py_split sep rest)"
  by pat_completeness auto
termination
proof (relation "measure (\<lambda>(sep, s). length s)")
  fix sep :: char and s :: string and x rest
  assume "dropWhile (\<lambda>c. c \<noteq> sep) s = x # rest"
  then have "Suc (length rest) = length (dropWhile (\<lambda>c. c \<noteq> sep) s)"
    by simp
  also have "\<dots> \<le> length s"
    by (rule length_dropWhile_le)
  finally show "((sep, rest), (sep, s)) \<in> measure (\<lambda>(sep, s). length s)"
    by simp
qed simp

declare py_split.simps [simp del]

text \<open>\<^verbatim>\<open>s.lower()\<close>: the capital letters A to Z and those of Latin-1 move up by 32.\<close>

definition lower_char :: "char \<Rightarrow> char" where
  "lower_char c =
     (let n = (of_char c :: nat)
      in if (65 \<le> n \<and> n \<le> 90) \<or> (192 \<le> n \<and> n \<le> 214) \<or> (216 \<le> n \<and> n \<le> 222)
         then char_of (n + 32) else c)"

definition py_lower :: "string \<Rightarrow> string" where
  "py_lower s = map lower_char s"

text \<open>
  \<^verbatim>\<open>int(s)\<close> in base 10: white space around the number is dropped (tab, line feed,
  vertical tab, form feed, carriage return, space, and the code points 133 and 160),
  one sign may lead, and the rest must be decimal digits, where single underscores may
  stand between two digits. Anything else is a ValueError. (The class applies it to
  slices of at most two characters.)
\<close>

definition is_space :: "char \<Rightarrow> bool" where
  "is_space c = ((of_char c :: nat) \<in> {9, 10, 11, 12, 13, 32, 133, 160})"

definition is_digit :: "char \<Rightarrow> bool" where
  "is_digit c = (48 \<le> (of_char c :: nat) \<and> (of_char c :: nat) \<le> 57)"

definition py_strip :: "string \<Rightarrow> string" where
  "py_strip s = rev (dropWhile is_space (rev (dropWhile is_space s)))"

fun digits_ok :: "string \<Rightarrow> bool" where
  "digits_ok [] = False"
| "digits_ok [c] = is_digit c"
| "digits_ok (c # d # cs) =
     (if is_digit c then (if d = CHR ''_'' then digits_ok cs else digits_ok (d # cs))
      else False)"

definition dec_value :: "string \<Rightarrow> int" where
  "dec_value s =
     foldl (\<lambda>acc c. if c = CHR ''_'' then acc else 10 * acc + (int (of_char c) - 48)) 0 s"

definition py_int :: "string \<Rightarrow> error + int" where
  "py_int s =
     (let t = py_strip s;
          signed = (t \<noteq> [] \<and> (hd t = CHR ''-'' \<or> hd t = CHR ''+''));
          u = (if signed then tl t else t)
      in if digits_ok u
         then Inr (if signed \<and> hd t = CHR ''-'' then - dec_value u else dec_value u)
         else Inl ValueError)"

text \<open>\<^verbatim>\<open>str(x)\<close> of an \<^verbatim>\<open>int\<close>: its decimal digits, with a minus sign below zero.\<close>

fun nat_digits :: "nat \<Rightarrow> string" where
  "nat_digits n =
     (if n < 10 then [char_of (48 + n)] else nat_digits (n div 10) @ [char_of (48 + n mod 10)])"

declare nat_digits.simps [simp del]

definition int_str :: "int \<Rightarrow> string" where
  "int_str i = (if i < 0 then CHR ''-'' # nat_digits (nat (- i)) else nat_digits (nat i))"

fun py_str :: "cell \<Rightarrow> string" where
  "py_str CNone = ''None''"
| "py_str (CStr s) = s"
| "py_str (CInt i) = int_str i"
| "py_str (CBool b) = (if b then ''True'' else ''False'')"
| "py_str (COther s) = s"

text \<open>\<^verbatim>\<open>s.replace('"', '')\<close>: every double quote (code point 34) goes.\<close>

definition remove_quotes :: "string \<Rightarrow> string" where
  "remove_quotes s = filter (\<lambda>c. c \<noteq> char_of (34 :: nat)) s"

text \<open>\<^verbatim>\<open>max(xs)\<close> of a list of numbers: ValueError on the empty list.\<close>

definition py_max :: "nat list \<Rightarrow> error + nat" where
  "py_max xs = (case xs of [] \<Rightarrow> Inl ValueError | x # ys \<Rightarrow> Inr (fold max ys x))"

subsection \<open>The worksheet iterators of openpyxl\<close>

text \<open>
  \<^verbatim>\<open>iter_cols(min_row, min_col, max_row, max_col, values_only=True)\<close> is a generator.
  A bound that is 0 counts as missing: \<^verbatim>\<open>min_row or 1\<close>, \<^verbatim>\<open>min_col or 1\<close>,
  \<^verbatim>\<open>max_col or self.max_column\<close>, \<^verbatim>\<open>max_row or self.max_row\<close>. For each column from
  \<open>min_col\<close> to \<open>max_col\<close> it yields the tuple of that column's values in the rows from
  \<open>min_row\<close> to \<open>max_row\<close>; reading a cell in a row above 1048576 raises ValueError.
  \<^verbatim>\<open>iter_rows\<close> yields one tuple per row in the same way. The generator is
  represented by the list of the items it yields in turn, each a tuple or the error
  raised in its place; a loop over it ends at the first error. (The class passes 1 for
  \<open>min_col\<close> in every call, so the shortcut of openpyxl for four missing bounds on an
  empty sheet does not arise.)
\<close>

definition bound_or :: "nat \<Rightarrow> nat \<Rightarrow> nat" where
  "bound_or bound dflt = (if bound = 0 then dflt else bound)"

definition iter_cols ::
  "worksheet \<Rightarrow> nat \<Rightarrow> nat \<Rightarrow> nat \<Rightarrow> nat \<Rightarrow> (error + cell list) list" where
  "iter_cols ws min_row min_col max_row max_col =
     (let min_col' = bound_or min_col 1;
          min_row' = bound_or min_row 1;
          max_col' = bound_or max_col (ws_max_column ws);
          max_row' = bound_or max_row (ws_max_row ws)
      in map (\<lambda>c. if min_row' \<le> max_row' \<and> 1048576 < max_row' then Inl ValueError
                  else Inr (map (\<lambda>r. ws_cell ws r c) [min_row'..<Suc max_row']))
           [min_col'..<Suc max_col'])"

definition iter_rows ::
  "worksheet \<Rightarrow> nat \<Rightarrow> nat \<Rightarrow> nat \<Rightarrow> nat \<Rightarrow> (error + cell list) list" where
  "iter_rows ws min_row min_col max_row max_col =
     (let min_col' = bound_or min_col 1;
          min_row' = bound_or min_row 1;
          max_col' = bound_or max_col (ws_max_column ws);
          max_row' = bound_or max_row (ws_max_row ws)
      in map (\<lambda>r. if min_col' \<le> max_col' \<and> 1048576 < r then Inl ValueError
                  else Inr (map (\<lambda>c. ws_cell ws r c) [min_col'..<Suc max_col']))
           [min_row'..<Suc max_row'])"

subsection \<open>The properties of the report\<close>

definition report_id :: "report \<Rightarrow> cell" where
  "report_id rpt = r_report_id rpt"

text \<open>
  \<^verbatim>\<open>kv_pair = self._reporting_period.split(';')[0]; return kv_pair.split('=')[1]\<close>,
  and the same with entry 1 for the end date. A value that is not a \<^verbatim>\<open>str\<close> has
  no \<^verbatim>\<open>split\<close>.
\<close>

definition begin_date :: "report \<Rightarrow> error + string" where
  "begin_date rpt =
     (case r_reporting_period rpt of
        CStr s \<Rightarrow>
          (case py_index (py_split CHR '';'' s) 0 of
             Inl e \<Rightarrow> Inl e
           | Inr kv_pair \<Rightarrow> py_index (py_split CHR ''='' kv_pair) 1)
      | _ \<Rightarrow> Inl AttributeError)"

definition end_date :: "report \<Rightarrow> error + string" where
  "end_date rpt =
     (case r_reporting_period rpt of
        CStr s \<Rightarrow>
          (case py_index (py_split CHR '';'' s) 1 of
             Inl e \<Rightarrow> Inl e
           | Inr kv_pair \<Rightarrow> py_index (py_split CHR ''='' kv_pair) 1)
      | _ \<Rightarrow> Inl AttributeError)"

text \<open>\<^verbatim>\<open>return self.report_id[3:4]\<close>. Only a \<^verbatim>\<open>str\<close> can be sliced.\<close>

definition title_type :: "report \<Rightarrow> error + string" where
  "title_type rpt =
     (case report_id rpt of CStr s \<Rightarrow> Inr (py_slice s 3 4) | _ \<Rightarrow> Inl TypeError)"

subsection \<open>The header row\<close>

definition col :: "cell \<Rightarrow> nat option" where
  "col = [CStr ''TR_J1'' \<mapsto> 11, CStr ''TR_J3'' \<mapsto> 12, CStr ''TR_B1'' \<mapsto> 13,
     CStr ''TR_B3'' \<mapsto> 14]"

text \<open>\<^verbatim>\<open>cell.lower()\<close>: only a \<^verbatim>\<open>str\<close> has the method.\<close>

fun cell_lower :: "cell \<Rightarrow> error + string" where
  "cell_lower (CStr s) = Inr (py_lower s)"
| "cell_lower _ = Inl AttributeError"

text \<open>The inner loop \<^verbatim>\<open>for cell in row: header.append(cell.lower())\<close>.\<close>

fun append_lower :: "string list \<Rightarrow> cell list \<Rightarrow> error + string list" where
  "append_lower header [] = Inr header"
| "append_lower header (c # cs) =
     (case cell_lower c of Inl e \<Rightarrow> Inl e | Inr s \<Rightarrow> append_lower (header @ [s]) cs)"

text \<open>The outer loop over the items that \<^verbatim>\<open>iter_cols\<close> yields.\<close>

fun append_lower_cols ::
  "string list \<Rightarrow> (error + cell list) list \<Rightarrow> error + string list" where
  "append_lower_cols header [] = Inr header"
| "append_lower_cols header (item # items) =
     (case item of
        Inl e \<Rightarrow> Inl e
      | Inr row \<Rightarrow>
     (case append_lower header row of
        Inl e \<Rightarrow> Inl e
      | Inr header' \<Rightarrow> append_lower_cols header' items))"

text \<open>
  \<^verbatim>\<open>_header_row\<close>. The dictionary lookup \<^verbatim>\<open>col[self.report_id]\<close> comes first, then
  the title columns of row 14, then the two dates and their months, then the slice of
  \<^verbatim>\<open>PERIODS\<close>, whose entries are appended one by one.
\<close>

definition header_row :: "report \<Rightarrow> error + string list" where
  "header_row rpt =
     (case col (report_id rpt) of
        None \<Rightarrow> Inl KeyError
      | Some k \<Rightarrow>
     (case append_lower_cols [] (iter_cols (r_worksheet rpt) HEADER_ROW 1 HEADER_ROW k) of
        Inl e \<Rightarrow> Inl e
      | Inr header \<Rightarrow>
     (case begin_date rpt of
        Inl e \<Rightarrow> Inl e
      | Inr bd \<Rightarrow>
     (case py_int (py_slice bd 5 7) of
        Inl e \<Rightarrow> Inl e
      | Inr start_month \<Rightarrow>
     (case end_date rpt of
        Inl e \<Rightarrow> Inl e
      | Inr ed \<Rightarrow>
     (case py_int (py_slice ed 5 7) of
        Inl e \<Rightarrow> Inl e
      | Inr end_month \<Rightarrow>
          Inr (header @ py_slice PERIODS start_month (end_month + 1))))))))"

subsection \<open>The extent of the data\<close>

text \<open>
  The loop of \<^verbatim>\<open>data_rows\<close> and of \<^verbatim>\<open>data_cols\<close>: the counter goes up by one
  for every tuple whose first value is there, and the loop breaks at the first tuple
  whose first value is \<^verbatim>\<open>None\<close>. (A tuple without a first value would be an
  IndexError; every tuple has one value here.)
\<close>

fun count_filled :: "nat \<Rightarrow> (error + cell list) list \<Rightarrow> error + nat" where
  "count_filled r [] = Inr r"
| "count_filled r (item # items) =
     (case item of
        Inl e \<Rightarrow> Inl e
      | Inr row \<Rightarrow>
     (case row of
        [] \<Rightarrow> Inl IndexError
      | c # _ \<Rightarrow> if c = CNone then Inr r else count_filled (r + 1) items))"

definition data_rows :: "report \<Rightarrow> error + nat list" where
  "data_rows rpt =
     (case count_filled DATA_ROW_START
             (iter_rows (r_worksheet rpt) DATA_ROW_START 1 MAX_ROWS 1) of
        Inl e \<Rightarrow> Inl e
      | Inr r \<Rightarrow> Inr [DATA_ROW_START ..< r])"

definition data_cols :: "report \<Rightarrow> error + nat list" where
  "data_cols rpt =
     (case count_filled 1
             (iter_cols (r_worksheet rpt) HEADER_ROW DATA_COL_START HEADER_ROW MAX_COLS) of
        Inl e \<Rightarrow> Inl e
      | Inr c \<Rightarrow> Inr [DATA_COL_START ..< c])"

subsection \<open>Rows as named tuples\<close>

text \<open>
  \<^verbatim>\<open>collections.namedtuple(typename, field_names)\<close> of Python 3.7 and later: the type
  name and every field name must be an identifier and no keyword, no field name may
  start with an underscore, and no field name may come twice. Each violation is a
  ValueError. The class is then made by compiling a function whose parameters are the
  field names; Python reads identifiers in their NFKC form, and two parameters of the
  same form are a SyntaxError. The class made is represented by its list of field names.
\<close>

definition id_start :: "char \<Rightarrow> bool" where
  "id_start c =
     (let n = (of_char c :: nat)
      in (65 \<le> n \<and> n \<le> 90) \<or> n = 95 \<or> (97 \<le> n \<and> n \<le> 122) \<or> n = 170 \<or> n = 181
         \<or> n = 186 \<or> (192 \<le> n \<and> n \<le> 214) \<or> (216 \<le> n \<and> n \<le> 246) \<or> 248 \<le> n)"

definition id_continue :: "char \<Rightarrow> bool" where
  "id_continue c = (id_start c \<or> is_digit c \<or> (of_char c :: nat) = 183)"

definition isidentifier :: "string \<Rightarrow> bool" where
  "isidentifier s = (case s of [] \<Rightarrow> False | c # cs \<Rightarrow> id_start c \<and> list_all id_continue cs)"

definition kwlist :: "string list" where
  "kwlist = [''False'', ''None'', ''True'', ''and'', ''as'', ''assert'', ''async'',
     ''await'', ''break'', ''class'', ''continue'', ''def'', ''del'', ''elif'', ''else'',
     ''except'', ''finally'', ''for'', ''from'', ''global'', ''if'', ''import'', ''in'',
     ''is'', ''lambda'', ''nonlocal'', ''not'', ''or'', ''pass'', ''raise'', ''return'',
     ''try'', ''while'', ''with'', ''yield'']"

definition iskeyword :: "string \<Rightarrow> bool" where
  "iskeyword s = List.member kwlist s"

definition field_names_ok :: "string \<Rightarrow> string list \<Rightarrow> bool" where
  "field_names_ok typename field_names =
     (list_all (\<lambda>name. isidentifier name \<and> \<not> iskeyword name) (typename # field_names)
      \<and> list_all (\<lambda>name. take 1 name \<noteq> ''_'') field_names
      \<and> distinct field_names)"

text \<open>
  The NFKC form of an identifier: among the characters that an identifier may hold
  here, the feminine and masculine ordinal indicators (code points 170 and 186) become
  \<open>a\<close> and \<open>o\<close>. (The micro sign becomes a character above 255 that is the form of no
  other character here, so it stands for itself.)
\<close>

definition nfkc_char :: "char \<Rightarrow> char" where
  "nfkc_char c =
     (if (of_char c :: nat) = 170 then CHR ''a''
      else if (of_char c :: nat) = 186 then CHR ''o'' else c)"

definition nfkc :: "string \<Rightarrow> string" where
  "nfkc s = map nfkc_char s"

definition namedtuple :: "string \<Rightarrow> string list \<Rightarrow> error + string list" where
  "namedtuple typename field_names =
     (if \<not> field_names_ok typename field_names then Inl ValueError
      else if \<not> distinct (map nfkc field_names) then Inl SyntaxError
      else Inr field_names)"

record ReportRow =
  row_fields :: "string list"
  row_values :: "string list"

text \<open>\<^verbatim>\<open>row_spec._make(datarow)\<close>: a TypeError unless there is one value per field.\<close>

definition make :: "string list \<Rightarrow> string list \<Rightarrow> error + ReportRow" where
  "make row_spec datarow =
     (if length datarow \<noteq> length row_spec then Inl TypeError
      else Inr \<lparr>row_fields = row_spec, row_values = datarow\<rparr>)"

subsection \<open>Reading a row\<close>

text \<open>The body of the loops of \<^verbatim>\<open>get_row\<close>: what one cell adds to \<^verbatim>\<open>datarow\<close>.\<close>

definition cell_text :: "cell \<Rightarrow> string" where
  "cell_text c = (if c = CNone then [] else remove_quotes (py_str c))"

fun append_text :: "string list \<Rightarrow> cell list \<Rightarrow> string list" where
  "append_text datarow [] = datarow"
| "append_text datarow (c # cs) = append_text (datarow @ [cell_text c]) cs"

fun append_text_cols ::
  "string list \<Rightarrow> (error + cell list) list \<Rightarrow> error + string list" where
  "append_text_cols datarow [] = Inr datarow"
| "append_text_cols datarow (item # items) =
     (case item of
        Inl e \<Rightarrow> Inl e
      | Inr row \<Rightarrow> append_text_cols (append_text datarow row) items)"

text \<open>
  \<^verbatim>\<open>get_row(n)\<close>: the named tuple class is made from the header first, then the
  columns are probed and the row is read, then the tuple is made.
\<close>

definition get_row :: "report \<Rightarrow> nat \<Rightarrow> error + ReportRow" where
  "get_row rpt n =
     (case header_row rpt of
        Inl e \<Rightarrow> Inl e
      | Inr header \<Rightarrow>
     (case namedtuple ''ReportRow'' header of
        Inl e \<Rightarrow> Inl e
      | Inr row_spec \<Rightarrow>
     (case data_cols rpt of
        Inl e \<Rightarrow> Inl e
      | Inr cols \<Rightarrow>
     (case py_max cols of
        Inl e \<Rightarrow> Inl e
      | Inr m \<Rightarrow>
     (case append_text_cols [] (iter_cols (r_worksheet rpt) n 1 n m) of
        Inl e \<Rightarrow> Inl e
      | Inr datarow \<Rightarrow> make row_spec datarow)))))"

subsection \<open>A report to run the parser on\<close>

text \<open>
  A journal report (\<^verbatim>\<open>TR_J1\<close>) for January to March 2020: the header in row 14,
  six titles in rows 15 to 20, nothing below and nothing right of column 14. Column 5
  of the data is empty, column 1 holds a text with double quotes, and the counts from
  column 11 on are numbers.
\<close>

definition example_titles :: "string list" where
  "example_titles = [''Title'', ''Publisher'', ''Publisher_ID'', ''Platform'', ''DOI'',
     ''Proprietary_ID'', ''Print_ISSN'', ''Online_ISSN'', ''URI'', ''Metric_Type'',
     ''Reporting_Period_Total'', ''Jan-2020'', ''Feb-2020'', ''Mar-2020'']"

definition example_cells :: "nat \<Rightarrow> nat \<Rightarrow> cell" where
  "example_cells r c =
     (if r = 2 \<and> c = 2 then CStr ''TR_J1''
      else if r = 10 \<and> c = 2 then CStr ''Begin_Date=2020-01-01;End_Date=2020-03-31''
      else if r = 14 \<and> 1 \<le> c \<and> c \<le> 14 then CStr (example_titles ! (c - 1))
      else if 15 \<le> r \<and> r \<le> 20 \<and> 1 \<le> c \<and> c \<le> 14 then
        (if c = 1 then CStr (''The '' @ [char_of (34 :: nat)] @ ''Lancet'' @ [char_of (34 :: nat)])
         else if c = 5 then CNone
         else if 11 \<le> c then CInt 42
         else CStr ''x'')
      else CNone)"

definition example_sheet :: worksheet where
  "example_sheet = \<lparr>ws_cell = example_cells, ws_max_row = 20, ws_max_column = 14\<rparr>"

text \<open>The same sheet with one cell replaced.\<close>

definition put_cell :: "worksheet \<Rightarrow> nat \<Rightarrow> nat \<Rightarrow> cell \<Rightarrow> worksheet" where
  "put_cell ws r c v =
     \<lparr>ws_cell = (\<lambda>r' c'. if r' = r \<and> c' = c then v else ws_cell ws r' c'),
      ws_max_row = max (ws_max_row ws) r,
      ws_max_column = max (ws_max_column ws) c\<rparr>"

section \<open>Properties\<close>

subsection \<open>Splitting\<close>

lemma takeWhile_no_sep: "sep \<notin> set s \<Longrightarrow> takeWhile (\<lambda>c. c \<noteq> sep) s = s"
  by (induction s) auto

lemma py_split_no_sep: "sep \<notin> set s \<Longrightarrow> py_split sep s = [s]"
proof -
  assume "sep \<notin> set s"
  then have d: "dropWhile (\<lambda>c. c \<noteq> sep) s = []" by auto
  show ?thesis by (subst py_split.simps) (simp only: d list.case)
qed

lemma py_split_sep:
  assumes "sep \<notin> set a"
  shows "py_split sep (a @ sep # rest) = a # py_split sep rest"
proof -
  from assms have "dropWhile (\<lambda>c. c \<noteq> sep) (a @ sep # rest) = sep # rest"
    by (auto simp: dropWhile_append3)
  moreover from assms have "takeWhile (\<lambda>c. c \<noteq> sep) (a @ sep # rest) = a"
    by (auto simp: takeWhile_tail)
  ultimately show ?thesis by (subst py_split.simps) (simp only: list.case)
qed

lemma py_split_cases:
  "(sep \<notin> set s \<and> py_split sep s = [s]) \<or>
   (\<exists>a rest. s = a @ sep # rest \<and> sep \<notin> set a \<and> py_split sep s = a # py_split sep rest)"
proof (cases "sep \<in> set s")
  case False
  then show ?thesis by (simp add: py_split_no_sep)
next
  case True
  then obtain a rest where "s = a @ sep # rest" "sep \<notin> set a"
    by (auto dest: split_list_first)
  then show ?thesis using py_split_sep by blast
qed

lemma py_split_not_Nil: "py_split sep s \<noteq> []"
  using py_split_cases [of sep s] by auto

lemma py_split_many: "(Suc 0 < length (py_split sep s)) = (sep \<in> set s)"
proof -
  have "length (py_split sep rest) \<noteq> 0" for rest
    using py_split_not_Nil [of sep rest] by simp
  then show ?thesis
    using py_split_cases [of sep s] by auto
qed

lemma py_split_second:
  assumes "sep \<notin> set a" and "sep \<notin> set b"
  shows "py_index (py_split sep (a @ sep # b @ sep # rest)) (Suc 0) = Inr b"
proof -
  have "py_split sep (a @ sep # b @ sep # rest) = a # b # py_split sep rest"
    using assms by (simp add: py_split_sep)
  then show ?thesis by (simp add: py_index_def)
qed

text \<open>The value half of a \<open>key=value\<close> entry: missing exactly when there is no \<open>=\<close>.\<close>

lemma value_half_missing:
  "(py_index (py_split sep kv) (Suc 0) = Inl IndexError) = (sep \<notin> set kv)"
  using py_split_many [of sep kv] by (auto simp: py_index_def)

lemma value_half_cases:
  "py_index (py_split sep kv) (Suc 0) = Inl IndexError
   \<or> (\<exists>d. py_index (py_split sep kv) (Suc 0) = Inr d)"
  by (simp add: py_index_def)

lemma begin_date_str:
  "r_reporting_period rpt = CStr s \<Longrightarrow>
   begin_date rpt = py_index (py_split CHR ''='' (py_split CHR '';'' s ! 0)) (Suc 0)"
  by (simp add: begin_date_def py_index_def py_split_not_Nil)

lemma end_date_str:
  "r_reporting_period rpt = CStr s \<Longrightarrow>
   end_date rpt =
     (if length (py_split CHR '';'' s) < 2 then Inl IndexError
      else py_index (py_split CHR ''='' (py_split CHR '';'' s ! Suc 0)) (Suc 0))"
  by (simp add: end_date_def py_index_def numeral_2_eq_2 less_Suc_eq_le not_le)

lemma header_row_needs_dates:
  "begin_date rpt = Inl e \<or> end_date rpt = Inl e \<Longrightarrow> \<exists>e'. header_row rpt = Inl e'"
  by (auto simp: header_row_def split: option.splits sum.splits)

subsection \<open>The reporting period\<close>

text \<open>
  Claim C5, as the code has it. For a reporting period that is a string, \<^verbatim>\<open>begin_date\<close>
  fails (IndexError, the spec's MalformedPeriodError) exactly when the first
  semicolon-separated entry has no \<open>=\<close>, and \<^verbatim>\<open>end_date\<close> fails exactly when
  there are fewer than two entries or the second entry has no \<open>=\<close>; when they do not
  fail they return a date. Each getter reads its own entry only. Whenever one of them
  fails, \<^verbatim>\<open>_header_row\<close> fails as a whole: no header, whole or partial, is returned.
  The getters only compute a result from the report, which they leave as it is.
\<close>

theorem period_dates_fail:
  assumes "r_reporting_period rpt = CStr s"
  shows "(begin_date rpt = Inl IndexError \<longleftrightarrow> CHR ''='' \<notin> set (py_split CHR '';'' s ! 0))
       \<and> (begin_date rpt \<noteq> Inl IndexError \<longrightarrow> (\<exists>d. begin_date rpt = Inr d))
       \<and> (end_date rpt = Inl IndexError \<longleftrightarrow>
            length (py_split CHR '';'' s) < 2 \<or> CHR ''='' \<notin> set (py_split CHR '';'' s ! 1))
       \<and> (end_date rpt \<noteq> Inl IndexError \<longrightarrow> (\<exists>d. end_date rpt = Inr d))
       \<and> ((\<exists>e. begin_date rpt = Inl e) \<or> (\<exists>e. end_date rpt = Inl e)
            \<longrightarrow> (\<exists>e. header_row rpt = Inl e))"
proof -
  let ?entries = "py_split CHR '';'' s"
  have b: "begin_date rpt = py_index (py_split CHR ''='' (?entries ! 0)) (Suc 0)"
    using assms by (rule begin_date_str)
  have e: "end_date rpt =
      (if length ?entries < 2 then Inl IndexError
       else py_index (py_split CHR ''='' (?entries ! Suc 0)) (Suc 0))"
    using assms by (rule end_date_str)
  have 1: "begin_date rpt = Inl IndexError \<longleftrightarrow> CHR ''='' \<notin> set (?entries ! 0)"
    unfolding b by (rule value_half_missing)
  have 2: "begin_date rpt \<noteq> Inl IndexError \<longrightarrow> (\<exists>d. begin_date rpt = Inr d)"
    unfolding b using value_half_cases [of "CHR ''=''" "?entries ! 0"] by blast
  have 3: "end_date rpt = Inl IndexError \<longleftrightarrow>
      length ?entries < 2 \<or> CHR ''='' \<notin> set (?entries ! 1)"
    unfolding e by (simp add: value_half_missing)
  have 4: "end_date rpt \<noteq> Inl IndexError \<longrightarrow> (\<exists>d. end_date rpt = Inr d)"
    unfolding e using value_half_cases [of "CHR ''=''" "?entries ! Suc 0"] by auto
  have 5: "(\<exists>e. begin_date rpt = Inl e) \<or> (\<exists>e. end_date rpt = Inl e)
      \<longrightarrow> (\<exists>e. header_row rpt = Inl e)"
    using header_row_needs_dates [of rpt] by blast
  from 1 2 3 4 5 show ?thesis by blast
qed

text \<open>Two periods that fail: an entry without \<open>=\<close>, and a single entry.\<close>

theorem period_dates_fail_witness:
  "begin_date (TitleMasterReport (put_cell example_sheet 10 2 (CStr ''Begin_Date;End_Date=2020-03-31'')))
     = Inl IndexError
   \<and> end_date (TitleMasterReport (put_cell example_sheet 10 2 (CStr ''Begin_Date=2020-01-01'')))
     = Inl IndexError
   \<and> (\<exists>e. header_row (TitleMasterReport (put_cell example_sheet 10 2 (CStr ''Begin_Date=2020-01-01'')))
     = Inl e)"
proof -
  have p1: "r_reporting_period
      (TitleMasterReport (put_cell example_sheet 10 2 (CStr ''Begin_Date;End_Date=2020-03-31'')))
      = CStr ''Begin_Date;End_Date=2020-03-31''"
    by (simp add: TitleMasterReport_def put_cell_def)
  have p2: "r_reporting_period
      (TitleMasterReport (put_cell example_sheet 10 2 (CStr ''Begin_Date=2020-01-01'')))
      = CStr ''Begin_Date=2020-01-01''"
    by (simp add: TitleMasterReport_def put_cell_def)
  show ?thesis
    using period_dates_fail [OF p1] period_dates_fail [OF p2]
    by (simp add: py_split.simps)
qed

text \<open>
  The claim as it is written asks both getters to fail on a period of fewer than two
  entries. On the single entry \<^verbatim>\<open>Begin_Date=2020-01-01\<close> the begin date is returned.
\<close>

theorem begin_date_single_entry:
  "length (py_split CHR '';'' ''Begin_Date=2020-01-01'') < 2
   \<and> begin_date (TitleMasterReport (put_cell example_sheet 10 2 (CStr ''Begin_Date=2020-01-01'')))
     = Inr ''2020-01-01''"
  by (simp add: py_split.simps begin_date_def TitleMasterReport_def put_cell_def py_index_def)

text \<open>
  Claim C10. When the first (for \<^verbatim>\<open>begin_date\<close>) or second (for \<^verbatim>\<open>end_date\<close>)
  entry of the reporting period has more than one \<open>=\<close>, that is, it reads
  \<open>k=v=w\<close> with no \<open>=\<close> in \<open>k\<close> and none in \<open>v\<close>, the date returned is \<open>v\<close>, the text
  strictly between the first and the second \<open>=\<close>; whatever follows the second \<open>=\<close>
  is dropped and no error is raised.
\<close>

theorem date_stops_at_second_equals:
  assumes "r_reporting_period rpt = CStr s"
    and "i < length (py_split CHR '';'' s)"
    and "py_split CHR '';'' s ! i = k @ ''='' @ v @ ''='' @ w"
    and "CHR ''='' \<notin> set k" and "CHR ''='' \<notin> set v"
  shows "(i = 0 \<longrightarrow> begin_date rpt = Inr v) \<and> (i = 1 \<longrightarrow> end_date rpt = Inr v)"
proof -
  have v: "py_index (py_split CHR ''='' (py_split CHR '';'' s ! i)) (Suc 0) = Inr v"
    using assms(4,5) unfolding assms(3) by (simp add: py_split_second)
  have "i = 0 \<longrightarrow> begin_date rpt = Inr v"
    using v begin_date_str [OF assms(1)] by auto
  moreover have "i = 1 \<longrightarrow> end_date rpt = Inr v"
    using v assms(2) end_date_str [OF assms(1)] by auto
  ultimately show ?thesis by blast
qed

theorem date_stops_at_second_equals_witness:
  "begin_date (TitleMasterReport (put_cell example_sheet 10 2
      (CStr ''Begin_Date=2020-01-01=x=y;End_Date=2020-03-31=z''))) = Inr ''2020-01-01''
   \<and> end_date (TitleMasterReport (put_cell example_sheet 10 2
      (CStr ''Begin_Date=2020-01-01=x=y;End_Date=2020-03-31=z''))) = Inr ''2020-03-31''"
proof -
  let ?s = "''Begin_Date=2020-01-01=x=y;End_Date=2020-03-31=z''"
  let ?rpt = "TitleMasterReport (put_cell example_sheet 10 2 (CStr ?s))"
  have p: "r_reporting_period ?rpt = CStr ?s"
    by (simp add: TitleMasterReport_def put_cell_def)
  have sp: "py_split CHR '';'' ?s = [''Begin_Date=2020-01-01=x=y'', ''End_Date=2020-03-31=z'']"
    by (simp add: py_split.simps)
  have b: "begin_date ?rpt = Inr ''2020-01-01''"
    using date_stops_at_second_equals
      [OF p, of 0 "''Begin_Date''" "''2020-01-01''" "''x=y''"]
    by (simp add: sp)
  have e: "end_date ?rpt = Inr ''2020-03-31''"
    using date_stops_at_second_equals
      [OF p, of 1 "''End_Date''" "''2020-03-31''" "''z''"]
    by (simp add: sp)
  from b e show ?thesis by blast
qed

subsection \<open>The title type\<close>

text \<open>
  Claim C6, as the code has it. For a layout code that is a string of at least four
  characters, \<^verbatim>\<open>title_type\<close> returns the one character at position 3 (counted from
  0). For a shorter layout code the slice \<^verbatim>\<open>[3:4]\<close> is empty: \<^verbatim>\<open>title_type\<close> returns
  the empty string and raises no error.
\<close>

theorem title_type_slice:
  assumes "report_id rpt = CStr s"
  shows "(4 \<le> length s \<longrightarrow> title_type rpt = Inr [s ! 3])
       \<and> (length s < 4 \<longrightarrow> title_type rpt = Inr [])"
proof -
  have "4 \<le> length s \<Longrightarrow> take (Suc 0) (drop 3 s) = [s ! 3]"
    by (cases "drop 3 s") (auto simp: hd_drop_conv_nth [symmetric] dest: arg_cong [where f = hd])
  then show ?thesis
    using assms by (auto simp: title_type_def py_slice_def slice_bound_def min_def)
qed

text \<open>The layout \<^verbatim>\<open>TR_J1_abc\<close> has the title type \<^verbatim>\<open>J\<close>.\<close>

theorem title_type_slice_witness:
  "title_type (TitleMasterReport (put_cell example_sheet 2 2 (CStr ''TR_J1_abc''))) = Inr ''J''"
proof -
  have r: "report_id (TitleMasterReport (put_cell example_sheet 2 2 (CStr ''TR_J1_abc'')))
      = CStr ''TR_J1_abc''"
    by (simp add: report_id_def TitleMasterReport_def put_cell_def)
  show ?thesis using title_type_slice [OF r] by simp
qed

text \<open>
  The claim as it is written asks for a failure on a layout code shorter than four
  characters. On \<^verbatim>\<open>TR_\<close> the empty string is returned.
\<close>

theorem title_type_short_layout:
  "length ''TR_'' < 4
   \<and> title_type (TitleMasterReport (put_cell example_sheet 2 2 (CStr ''TR_''))) = Inr []"
  by (simp add: title_type_def report_id_def TitleMasterReport_def put_cell_def py_slice_def
      slice_bound_def)

subsection \<open>Layouts that are not supported\<close>

text \<open>
  Claim C7. For every layout code other than \<^verbatim>\<open>TR_J1\<close>, \<^verbatim>\<open>TR_J3\<close>, \<^verbatim>\<open>TR_B1\<close>
  and \<^verbatim>\<open>TR_B3\<close> (a value that is no string among them), \<^verbatim>\<open>_header_row\<close> fails with
  the KeyError of the dictionary lookup, which is the spec's UnsupportedLayoutError.
\<close>

theorem header_row_unsupported_layout:
  assumes "report_id rpt \<notin> {CStr ''TR_J1'', CStr ''TR_J3'', CStr ''TR_B1'', CStr ''TR_B3''}"
  shows "header_row rpt = Inl KeyError"
proof -
  from assms have "col (report_id rpt) = None"
    by (simp add: col_def)
  then show ?thesis by (simp add: header_row_def)
qed

theorem header_row_unsupported_layout_witness:
  "header_row (TitleMasterReport (put_cell example_sheet 2 2 (CStr ''TR_J4''))) = Inl KeyError
   \<and> header_row (TitleMasterReport (put_cell example_sheet 2 2 CNone)) = Inl KeyError"
proof -
  have 1: "report_id (TitleMasterReport (put_cell example_sheet 2 2 (CStr ''TR_J4'')))
      \<notin> {CStr ''TR_J1'', CStr ''TR_J3'', CStr ''TR_B1'', CStr ''TR_B3''}"
    by (simp add: report_id_def TitleMasterReport_def put_cell_def)
  have 2: "report_id (TitleMasterReport (put_cell example_sheet 2 2 CNone))
      \<notin> {CStr ''TR_J1'', CStr ''TR_J3'', CStr ''TR_B1'', CStr ''TR_B3''}"
    by (simp add: report_id_def TitleMasterReport_def put_cell_def)
  show ?thesis
    using header_row_unsupported_layout [OF 1] header_row_unsupported_layout [OF 2] by simp
qed

subsection \<open>The title columns of the header\<close>

lemma append_lower_text:
  "append_lower header (map CStr titles) = Inr (header @ map py_lower titles)"
  by (induction titles arbitrary: header) simp_all

lemma append_lower_returns:
  "append_lower header cs = Inr header' \<Longrightarrow>
   \<exists>titles. cs = map CStr titles \<and> header' = header @ map py_lower titles"
proof (induction cs arbitrary: header)
  case Nil
  then show ?case by simp
next
  case (Cons c cs)
  from Cons.prems obtain s where c: "c = CStr s"
    by (cases c) simp_all
  with Cons.prems have "append_lower (header @ [py_lower s]) cs = Inr header'"
    by simp
  from Cons.IH [OF this] obtain titles
    where cs: "cs = map CStr titles"
      and h: "header' = (header @ [py_lower s]) @ map py_lower titles"
    by blast
  show ?case
    by (rule exI [where x = "s # titles"]) (simp add: c cs h)
qed

lemma append_lower_cols_single:
  "append_lower_cols header (map (\<lambda>c. Inr [f c]) cs) = append_lower header (map f cs)"
proof (induction cs arbitrary: header)
  case Nil
  then show ?case by simp
next
  case (Cons c cs)
  then show ?case by (cases "cell_lower (f c)") simp_all
qed

text \<open>One row, or one column, inside the sheet: no bound is missing and no row too far.\<close>

lemma iter_cols_one_row:
  assumes "0 < r" and "r \<le> 1048576" and "0 < a" and "0 < b"
  shows "iter_cols ws r a r b = map (\<lambda>c. Inr [ws_cell ws r c]) [a..<Suc b]"
  using assms by (simp add: iter_cols_def bound_or_def)

lemma iter_rows_one_col:
  assumes "0 < a" and "0 < b" and "b \<le> 1048576" and "0 < c"
  shows "iter_rows ws a c b c = map (\<lambda>r. Inr [ws_cell ws r c]) [a..<Suc b]"
proof -
  have "map (\<lambda>r. if c \<le> c \<and> 1048576 < r then Inl ValueError
                else Inr (map (ws_cell ws r) [c..<Suc c])) [a..<Suc b]
      = map (\<lambda>r. Inr [ws_cell ws r c]) [a..<Suc b]"
    using assms(3) by (intro map_cong) auto
  then show ?thesis
    using assms(1,2,4) by (simp add: iter_rows_def bound_or_def)
qed

lemma title_columns:
  assumes "0 < k"
  shows "append_lower_cols [] (iter_cols ws HEADER_ROW 1 HEADER_ROW k) =
    append_lower [] (map (ws_cell ws HEADER_ROW) [1..<Suc k])"
proof -
  have "iter_cols ws HEADER_ROW 1 HEADER_ROW k =
      map (\<lambda>c. Inr [ws_cell ws HEADER_ROW c]) [1..<Suc k]"
    using assms by (intro iter_cols_one_row) (simp_all add: HEADER_ROW_def)
  then show ?thesis
    by (simp only: append_lower_cols_single)
qed

lemma col_supported:
  "(code, k) \<in> {(''TR_J1'', 11), (''TR_J3'', 12), (''TR_B1'', 13), (''TR_B3'', 14)} \<Longrightarrow>
   col (CStr code) = Some k"
  by (auto simp: col_def)

lemma col_at_least:
  "col x = Some k \<Longrightarrow> 11 \<le> k"
  by (auto simp: col_def split: if_splits)

text \<open>What \<^verbatim>\<open>_header_row\<close> comes to once the layout and the dates are there.\<close>

lemma header_row_begin:
  assumes "col (report_id rpt) = Some k" and "begin_date rpt = Inr bd"
  shows "header_row rpt =
    (case append_lower [] (map (ws_cell (r_worksheet rpt) HEADER_ROW) [1..<Suc k]) of
       Inl e \<Rightarrow> Inl e
     | Inr header \<Rightarrow>
    (case py_int (py_slice bd 5 7) of
       Inl e \<Rightarrow> Inl e
     | Inr start_month \<Rightarrow>
    (case end_date rpt of
       Inl e \<Rightarrow> Inl e
     | Inr ed \<Rightarrow>
    (case py_int (py_slice ed 5 7) of
       Inl e \<Rightarrow> Inl e
     | Inr end_month \<Rightarrow> Inr (header @ py_slice PERIODS start_month (end_month + 1))))))"
proof -
  from col_at_least [OF assms(1)] have "0 < k" by simp
  note t = title_columns [OF this]
  show ?thesis
    by (simp only: header_row_def t assms option.case sum.case)
qed

lemma header_row_dates:
  assumes "col (report_id rpt) = Some k"
    and "begin_date rpt = Inr bd" and "end_date rpt = Inr ed"
  shows "header_row rpt =
    (case append_lower [] (map (ws_cell (r_worksheet rpt) HEADER_ROW) [1..<Suc k]) of
       Inl e \<Rightarrow> Inl e
     | Inr header \<Rightarrow>
    (case py_int (py_slice bd 5 7) of
       Inl e \<Rightarrow> Inl e
     | Inr start_month \<Rightarrow>
    (case py_int (py_slice ed 5 7) of
       Inl e \<Rightarrow> Inl e
     | Inr end_month \<Rightarrow> Inr (header @ py_slice PERIODS start_month (end_month + 1)))))"
  by (simp only: header_row_begin [OF assms(1,2)] assms(3) sum.case)

lemma header_row_months:
  assumes "col (report_id rpt) = Some k"
    and "begin_date rpt = Inr bd" and "end_date rpt = Inr ed"
    and "py_int (py_slice bd 5 7) = Inr b" and "py_int (py_slice ed 5 7) = Inr e"
  shows "header_row rpt =
    (case append_lower [] (map (ws_cell (r_worksheet rpt) HEADER_ROW) [1..<Suc k]) of
       Inl err \<Rightarrow> Inl err
     | Inr header \<Rightarrow> Inr (header @ py_slice PERIODS b (e + 1)))"
  unfolding header_row_dates [OF assms(1,2,3)] assms(4,5)
  by (simp only: sum.case)

lemma header_row_returns:
  assumes "col (report_id rpt) = Some k"
    and "begin_date rpt = Inr bd" and "end_date rpt = Inr ed"
    and "py_int (py_slice bd 5 7) = Inr b" and "py_int (py_slice ed 5 7) = Inr e"
    and "header_row rpt = Inr h"
  shows "\<exists>titles. map (ws_cell (r_worksheet rpt) HEADER_ROW) [1..<Suc k] = map CStr titles
           \<and> length titles = k
           \<and> h = map py_lower titles @ py_slice PERIODS b (e + 1)"
proof -
  let ?cells = "map (ws_cell (r_worksheet rpt) HEADER_ROW) [1..<Suc k]"
  from assms(6) obtain header
    where a: "append_lower [] ?cells = Inr header"
      and h: "h = header @ py_slice PERIODS b (e + 1)"
    unfolding header_row_months [OF assms(1-5)] by (auto split: sum.splits)
  from append_lower_returns [OF a] obtain titles
    where t: "?cells = map CStr titles" and "header = map py_lower titles"
    by auto
  moreover have "length titles = k"
  proof -
    from t have "length ?cells = length (map CStr titles)"
      by (rule arg_cong)
    then show ?thesis by (simp del: upt_Suc)
  qed
  ultimately show ?thesis using h by blast
qed

lemma header_row_text:
  assumes "col (report_id rpt) = Some k"
    and "begin_date rpt = Inr bd" and "end_date rpt = Inr ed"
    and "py_int (py_slice bd 5 7) = Inr b" and "py_int (py_slice ed 5 7) = Inr e"
    and "map (ws_cell (r_worksheet rpt) HEADER_ROW) [1..<Suc k] = map CStr titles"
  shows "header_row rpt = Inr (map py_lower titles @ py_slice PERIODS b (e + 1))"
  unfolding header_row_months [OF assms(1-5)] assms(6) by (simp only: append_lower_text sum.case append_Nil)

subsection \<open>Slices of the month table\<close>

lemma length_PERIODS: "length PERIODS = 13"
  by (simp add: PERIODS_def)

lemma take_drop_nth:
  assumes "hi \<le> length xs"
  shows "take (hi - lo) (drop lo xs) = map ((!) xs) [lo..<hi]"
proof -
  have "take (hi - lo) (drop lo xs) = take (hi - lo) (drop lo (map ((!) xs) [0..<length xs]))"
    by (simp add: map_nth)
  also have "\<dots> = map ((!) xs) (take (hi - lo) [lo..<length xs])"
    by (simp add: take_map drop_map)
  also have "take (hi - lo) [lo..<length xs] = [lo..<hi]"
    using assms by (cases "lo \<le> hi") simp_all
  finally show ?thesis .
qed

lemma py_slice_months:
  assumes "1 \<le> b" and "b \<le> e" and "e \<le> 12"
  shows "py_slice PERIODS b (e + 1) = map ((!) PERIODS) [nat b..<Suc (nat e)]"
proof -
  have lo: "slice_bound 13 b = nat b" and hi: "slice_bound 13 (e + 1) = Suc (nat e)"
    using assms by (auto simp: slice_bound_def)
  have "Suc (nat e) \<le> length PERIODS"
    using assms by (simp add: length_PERIODS)
  then have "take (Suc (nat e) - nat b) (drop (nat b) PERIODS)
      = map ((!) PERIODS) [nat b..<Suc (nat e)]"
    by (rule take_drop_nth)
  then show ?thesis
    by (simp add: py_slice_def length_PERIODS lo hi)
qed

lemma py_slice_reversed:
  assumes "0 \<le> e" and "e < b"
  shows "py_slice xs b (e + 1) = []"
  using assms by (auto simp: py_slice_def slice_bound_def Let_def min_def)

subsection \<open>The example report, evaluated\<close>

lemma example_title_cells:
  "map (ws_cell example_sheet HEADER_ROW) [1..<Suc 11] =
   map CStr (take 11 example_titles)"
  by (simp add: example_sheet_def example_cells_def example_titles_def HEADER_ROW_def upt_rec)

lemma example_layout: "ws_cell example_sheet 2 2 = CStr ''TR_J1''"
  by (simp add: example_sheet_def example_cells_def)

lemma period_dates:
  assumes "CHR '';'' \<notin> set (k1 @ v1 @ k2 @ v2)" and "CHR ''='' \<notin> set (k1 @ v1 @ k2 @ v2)"
    and "r_reporting_period rpt = CStr (k1 @ ''='' @ v1 @ '';'' @ k2 @ ''='' @ v2)"
  shows "begin_date rpt = Inr v1 \<and> end_date rpt = Inr v2"
proof -
  have "py_split CHR '';'' (k1 @ ''='' @ v1 @ '';'' @ k2 @ ''='' @ v2)
      = [k1 @ ''='' @ v1, k2 @ ''='' @ v2]"
    using assms(1)
      py_split_sep [of "CHR '';''" "k1 @ ''='' @ v1" "k2 @ ''='' @ v2"]
      py_split_no_sep [of "CHR '';''" "k2 @ ''='' @ v2"]
    by simp
  moreover have "py_split CHR ''='' (k1 @ CHR ''='' # v1) = [k1, v1]"
    and "py_split CHR ''='' (k2 @ CHR ''='' # v2) = [k2, v2]"
    using assms(2) by (simp_all add: py_split_sep py_split_no_sep)
  ultimately show ?thesis
    using assms(3) by (simp add: begin_date_def end_date_def py_index_def)
qed

lemma month_digits:
  "py_int (py_slice ''2020-01-01'' 5 7) = Inr 1"
  "py_int (py_slice ''2020-03-31'' 5 7) = Inr 3"
  "py_int (py_slice ''2019-11-01'' 5 7) = Inr 11"
  "py_int (py_slice ''2020-02-29'' 5 7) = Inr 2"
  "py_int (py_slice ''2020-13-01'' 5 7) = Inr 13"
  "py_int (py_slice ''2020-12-31'' 5 7) = Inr 12"
  "py_int (py_slice ''2020-xx-01'' 5 7) = Inl ValueError"
  "py_int (py_slice ''2020-xx-31'' 5 7) = Inl ValueError"
  by (simp_all add: py_int_def py_slice_def slice_bound_def py_strip_def is_space_def
      is_digit_def dec_value_def)

lemma lower_titles:
  "map py_lower (take 11 example_titles) =
   [''title'', ''publisher'', ''publisher_id'', ''platform'', ''doi'', ''proprietary_id'',
    ''print_issn'', ''online_issn'', ''uri'', ''metric_type'', ''reporting_period_total'']"
  by code_simp

subsection \<open>The header of a supported layout\<close>

text \<open>
  Claim C1. Take a supported layout code with its count \<open>k\<close> of identifying columns
  (11, 12, 13, 14 for \<^verbatim>\<open>TR_J1\<close>, \<^verbatim>\<open>TR_J3\<close>, \<^verbatim>\<open>TR_B1\<close>, \<^verbatim>\<open>TR_B3\<close>) and begin and
  end dates whose characters \<^verbatim>\<open>[5:7]\<close> parse as the integers \<open>b\<close> and \<open>e\<close> with
  \<open>1 \<le> b \<le> e \<le> 12\<close>. Then every header that \<^verbatim>\<open>_header_row\<close> returns has the length
  \<open>k + (e - b + 1)\<close> and consists of the lowercased cells of columns 1 to \<open>k\<close> of the
  header row followed by the entries \<open>b\<close> to \<open>e\<close> of the month table; and the header is
  returned whenever those cells are all text.
\<close>

theorem header_row_supported_layout:
  assumes "(code, k) \<in> {(''TR_J1'', 11), (''TR_J3'', 12), (''TR_B1'', 13), (''TR_B3'', 14)}"
    and "report_id rpt = CStr code"
    and "begin_date rpt = Inr bd" and "end_date rpt = Inr ed"
    and "py_int (py_slice bd 5 7) = Inr b" and "py_int (py_slice ed 5 7) = Inr e"
    and "1 \<le> b" and "b \<le> e" and "e \<le> 12"
  shows "(\<forall>h. header_row rpt = Inr h \<longrightarrow>
            length h = k + nat (e - b + 1)
            \<and> (\<exists>titles. map (ws_cell (r_worksheet rpt) HEADER_ROW) [1..<Suc k] = map CStr titles
                  \<and> h = map py_lower titles @ map ((!) PERIODS) [nat b..<Suc (nat e)]))
       \<and> (\<forall>titles. map (ws_cell (r_worksheet rpt) HEADER_ROW) [1..<Suc k] = map CStr titles \<longrightarrow>
            header_row rpt =
              Inr (map py_lower titles @ map ((!) PERIODS) [nat b..<Suc (nat e)]))"
proof -
  have c: "col (report_id rpt) = Some k"
    using col_supported [OF assms(1)] assms(2) by simp
  have months: "py_slice PERIODS b (e + 1) = map ((!) PERIODS) [nat b..<Suc (nat e)]"
    using assms(7,8,9) by (rule py_slice_months)
  have n: "length (map ((!) PERIODS) [nat b..<Suc (nat e)]) = nat (e - b + 1)"
    using assms(7,8) by simp arith
  have "length h = k + nat (e - b + 1)
      \<and> (\<exists>titles. map (ws_cell (r_worksheet rpt) HEADER_ROW) [1..<Suc k] = map CStr titles
            \<and> h = map py_lower titles @ map ((!) PERIODS) [nat b..<Suc (nat e)])"
    if "header_row rpt = Inr h" for h
  proof -
    from header_row_returns [OF c assms(3,4,5,6) that] obtain titles
      where t: "map (ws_cell (r_worksheet rpt) HEADER_ROW) [1..<Suc k] = map CStr titles"
        and l: "length titles = k"
        and h: "h = map py_lower titles @ map ((!) PERIODS) [nat b..<Suc (nat e)]"
      unfolding months by blast
    have "length h = k + nat (e - b + 1)"
      unfolding h using l n by simp
    with t h show ?thesis by blast
  qed
  moreover have "header_row rpt =
      Inr (map py_lower titles @ map ((!) PERIODS) [nat b..<Suc (nat e)])"
    if "map (ws_cell (r_worksheet rpt) HEADER_ROW) [1..<Suc k] = map CStr titles" for titles
    using header_row_text [OF c assms(3,4,5,6) that] unfolding months .
  ultimately show ?thesis by blast
qed

text \<open>The example report: eleven title columns and the months January to March.\<close>

theorem header_row_supported_layout_witness:
  "header_row (TitleMasterReport example_sheet) =
     Inr [''title'', ''publisher'', ''publisher_id'', ''platform'', ''doi'', ''proprietary_id'',
       ''print_issn'', ''online_issn'', ''uri'', ''metric_type'', ''reporting_period_total'',
       ''jan'', ''feb'', ''mar'']"
proof -
  let ?rpt = "TitleMasterReport example_sheet"
  have l: "(''TR_J1'', 11) \<in> {(''TR_J1'', 11), (''TR_J3'', 12), (''TR_B1'', 13), (''TR_B3'', 14 :: nat)}"
    by simp
  have r: "report_id ?rpt = CStr ''TR_J1''"
    by (simp add: report_id_def TitleMasterReport_def example_sheet_def example_cells_def)
  have p: "r_reporting_period ?rpt =
      CStr (''Begin_Date'' @ ''='' @ ''2020-01-01'' @ '';'' @ ''End_Date'' @ ''='' @ ''2020-03-31'')"
    by (simp add: TitleMasterReport_def example_sheet_def example_cells_def)
  have d: "begin_date ?rpt = Inr ''2020-01-01'' \<and> end_date ?rpt = Inr ''2020-03-31''"
    by (rule period_dates [OF _ _ p]) simp_all
  have t: "map (ws_cell (r_worksheet ?rpt) HEADER_ROW) [1..<Suc 11] =
      map CStr (take 11 example_titles)"
    using example_title_cells by (simp add: TitleMasterReport_def)
  have m: "map ((!) PERIODS) [nat 1..<Suc (nat 3)] = [''jan'', ''feb'', ''mar'']"
    by (simp add: PERIODS_def upt_rec)
  have "(1::int) \<le> 1" and "(1::int) \<le> 3" and "(3::int) \<le> 12"
    by simp_all
  note inst = header_row_supported_layout
    [OF l r conjunct1 [OF d] conjunct2 [OF d] month_digits(1) month_digits(2) this]
  from inst t have "header_row ?rpt =
      Inr (map py_lower (take 11 example_titles) @ map ((!) PERIODS) [nat 1..<Suc (nat 3)])"
    by blast
  then show ?thesis
    unfolding m lower_titles by simp
qed

text \<open>The example report with another reporting period in cell (10, 2).\<close>

lemma example_with_period:
  assumes "s = k1 @ ''='' @ v1 @ '';'' @ k2 @ ''='' @ v2"
    and "CHR '';'' \<notin> set (k1 @ v1 @ k2 @ v2)" and "CHR ''='' \<notin> set (k1 @ v1 @ k2 @ v2)"
  shows "report_id (TitleMasterReport (put_cell example_sheet 10 2 (CStr s))) = CStr ''TR_J1''"
    and "begin_date (TitleMasterReport (put_cell example_sheet 10 2 (CStr s))) = Inr v1"
    and "end_date (TitleMasterReport (put_cell example_sheet 10 2 (CStr s))) = Inr v2"
    and "map (ws_cell (r_worksheet (TitleMasterReport (put_cell example_sheet 10 2 (CStr s)))) HEADER_ROW)
        [1..<Suc 11] = map CStr (take 11 example_titles)"
proof -
  let ?rpt = "TitleMasterReport (put_cell example_sheet 10 2 (CStr s))"
  show "report_id ?rpt = CStr ''TR_J1''"
    by (simp add: report_id_def TitleMasterReport_def put_cell_def example_layout)
  have "r_reporting_period ?rpt = CStr (k1 @ ''='' @ v1 @ '';'' @ k2 @ ''='' @ v2)"
    by (simp add: assms(1) TitleMasterReport_def put_cell_def)
  from period_dates [OF assms(2,3) this]
  show "begin_date ?rpt = Inr v1" and "end_date ?rpt = Inr v2"
    by simp_all
  have "ws_cell (r_worksheet ?rpt) HEADER_ROW = ws_cell example_sheet HEADER_ROW"
    by (simp add: TitleMasterReport_def put_cell_def HEADER_ROW_def fun_eq_iff)
  then show "map (ws_cell (r_worksheet ?rpt) HEADER_ROW) [1..<Suc 11] = map CStr (take 11 example_titles)"
    by (simp only: example_title_cells)
qed

lemma py_int_error: "py_int s = Inl err \<Longrightarrow> err = ValueError"
  by (simp add: py_int_def Let_def split: if_splits)

text \<open>
  Claim C9. For a supported layout and months \<open>b\<close> and \<open>e\<close> between 1 and 12 with
  \<open>e < b\<close>, the slice of the month table is empty: every header that \<^verbatim>\<open>_header_row\<close>
  returns is exactly the \<open>k\<close> lowercased identifying columns, and it is returned, with no
  error, whenever those cells are all text. Nothing is swapped or wrapped around.
\<close>

theorem header_row_reversed_months:
  assumes "(code, k) \<in> {(''TR_J1'', 11), (''TR_J3'', 12), (''TR_B1'', 13), (''TR_B3'', 14)}"
    and "report_id rpt = CStr code"
    and "begin_date rpt = Inr bd" and "end_date rpt = Inr ed"
    and "py_int (py_slice bd 5 7) = Inr b" and "py_int (py_slice ed 5 7) = Inr e"
    and "1 \<le> e" and "e < b" and "b \<le> 12"
  shows "py_slice PERIODS b (e + 1) = []
       \<and> (\<forall>h. header_row rpt = Inr h \<longrightarrow>
            length h = k
            \<and> (\<exists>titles. map (ws_cell (r_worksheet rpt) HEADER_ROW) [1..<Suc k] = map CStr titles
                  \<and> h = map py_lower titles))
       \<and> (\<forall>titles. map (ws_cell (r_worksheet rpt) HEADER_ROW) [1..<Suc k] = map CStr titles \<longrightarrow>
            header_row rpt = Inr (map py_lower titles))"
proof -
  have c: "col (report_id rpt) = Some k"
    using col_supported [OF assms(1)] assms(2) by simp
  have months: "py_slice PERIODS b (e + 1) = []"
    using assms(7,8) by (simp add: py_slice_reversed)
  have "length h = k
      \<and> (\<exists>titles. map (ws_cell (r_worksheet rpt) HEADER_ROW) [1..<Suc k] = map CStr titles
            \<and> h = map py_lower titles)"
    if "header_row rpt = Inr h" for h
  proof -
    from header_row_returns [OF c assms(3,4,5,6) that] obtain titles
      where t: "map (ws_cell (r_worksheet rpt) HEADER_ROW) [1..<Suc k] = map CStr titles"
        and l: "length titles = k"
        and h: "h = map py_lower titles"
      unfolding months by auto
    from h l have "length h = k" by simp
    with t h show ?thesis by blast
  qed
  moreover have "header_row rpt = Inr (map py_lower titles)"
    if "map (ws_cell (r_worksheet rpt) HEADER_ROW) [1..<Suc k] = map CStr titles" for titles
    using header_row_text [OF c assms(3,4,5,6) that] unfolding months by simp
  ultimately show ?thesis using months by blast
qed

text \<open>A period from November 2019 to February 2020: the header has no months.\<close>

theorem header_row_reversed_months_witness:
  "header_row (TitleMasterReport (put_cell example_sheet 10 2
      (CStr ''Begin_Date=2019-11-01;End_Date=2020-02-29''))) =
     Inr [''title'', ''publisher'', ''publisher_id'', ''platform'', ''doi'', ''proprietary_id'',
       ''print_issn'', ''online_issn'', ''uri'', ''metric_type'', ''reporting_period_total'']"
proof -
  let ?rpt = "TitleMasterReport (put_cell example_sheet 10 2
      (CStr ''Begin_Date=2019-11-01;End_Date=2020-02-29''))"
  have l: "(''TR_J1'', 11) \<in> {(''TR_J1'', 11), (''TR_J3'', 12), (''TR_B1'', 13), (''TR_B3'', 14 :: nat)}"
    by simp
  have "''Begin_Date=2019-11-01;End_Date=2020-02-29'' =
      ''Begin_Date'' @ ''='' @ ''2019-11-01'' @ '';'' @ ''End_Date'' @ ''='' @ ''2020-02-29''"
    and "CHR '';'' \<notin> set (''Begin_Date'' @ ''2019-11-01'' @ ''End_Date'' @ ''2020-02-29'')"
    and "CHR ''='' \<notin> set (''Begin_Date'' @ ''2019-11-01'' @ ''End_Date'' @ ''2020-02-29'')"
    by simp_all
  note ex = example_with_period [OF this]
  have "(1::int) \<le> 2" and "(2::int) < 11" and "(11::int) \<le> 12"
    by simp_all
  note inst = header_row_reversed_months
    [OF l ex(1) ex(2) ex(3) month_digits(3) month_digits(4) this]
  from inst ex(4) have "header_row ?rpt =
      Inr (map py_lower (take 11 example_titles))"
    by blast
  then show ?thesis
    unfolding lower_titles .
qed

text \<open>
  Claim C8, as the code has it. Take a supported layout whose title cells are text and
  a reporting period from which the begin date can be read. When the characters
  \<^verbatim>\<open>[5:7]\<close> of the begin date do not parse as an integer, \<^verbatim>\<open>_header_row\<close> fails with
  the ValueError of \<^verbatim>\<open>int()\<close> (the spec's InvalidDateError), whatever the end date
  is; so it does when the end date can be read and its characters \<^verbatim>\<open>[5:7]\<close> do not
  parse. When both months parse, whatever the integers are, no error is raised and the
  months appended are the slice \<^verbatim>\<open>PERIODS[b:e+1]\<close> as Python takes it. There is no
  check of the range 1 to 12.
\<close>

theorem header_row_month_digits:
  assumes "(code, k) \<in> {(''TR_J1'', 11), (''TR_J3'', 12), (''TR_B1'', 13), (''TR_B3'', 14)}"
    and "report_id rpt = CStr code"
    and "map (ws_cell (r_worksheet rpt) HEADER_ROW) [1..<Suc k] = map CStr titles"
    and "begin_date rpt = Inr bd"
  shows "((\<forall>b. py_int (py_slice bd 5 7) \<noteq> Inr b) \<longrightarrow> header_row rpt = Inl ValueError)
       \<and> (\<forall>ed. end_date rpt = Inr ed \<and> (\<forall>e. py_int (py_slice ed 5 7) \<noteq> Inr e) \<longrightarrow>
            header_row rpt = Inl ValueError)
       \<and> (\<forall>ed b e. end_date rpt = Inr ed \<and> py_int (py_slice bd 5 7) = Inr b
              \<and> py_int (py_slice ed 5 7) = Inr e \<longrightarrow>
            header_row rpt = Inr (map py_lower titles @ py_slice PERIODS b (e + 1)))"
proof -
  have c: "col (report_id rpt) = Some k"
    using col_supported [OF assms(1)] assms(2) by simp
  note h = header_row_begin [OF c assms(4), unfolded assms(3) append_lower_text sum.case]
  have begin_fails: "header_row rpt = Inl ValueError"
    if "py_int (py_slice bd 5 7) = Inl err" for err
    unfolding h using that py_int_error [OF that] by simp
  have 1: "header_row rpt = Inl ValueError" if "\<forall>b. py_int (py_slice bd 5 7) \<noteq> Inr b"
  proof (cases "py_int (py_slice bd 5 7)")
    case (Inl err)
    then show ?thesis by (rule begin_fails)
  next
    case (Inr b)
    with that show ?thesis by simp
  qed
  have 2: "header_row rpt = Inl ValueError"
    if "end_date rpt = Inr ed \<and> (\<forall>e. py_int (py_slice ed 5 7) \<noteq> Inr e)" for ed
  proof (cases "py_int (py_slice bd 5 7)")
    case (Inl err)
    then show ?thesis by (rule begin_fails)
  next
    case b: (Inr b)
    from that obtain err where e: "py_int (py_slice ed 5 7) = Inl err"
      by (cases "py_int (py_slice ed 5 7)") auto
    show ?thesis
      unfolding h using that b e py_int_error [OF e] by simp
  qed
  have 3: "header_row rpt = Inr (map py_lower titles @ py_slice PERIODS b (e + 1))"
    if "end_date rpt = Inr ed \<and> py_int (py_slice bd 5 7) = Inr b
      \<and> py_int (py_slice ed 5 7) = Inr e" for ed b e
    unfolding h using that by simp
  from 1 2 3 show ?thesis by blast
qed

text \<open>
  A begin date whose month reads \<^verbatim>\<open>xx\<close>, once with an end date and once in a period
  that has no second entry, and an end date whose month reads \<^verbatim>\<open>xx\<close>.
\<close>

theorem header_row_month_digits_witness:
  "header_row (TitleMasterReport (put_cell example_sheet 10 2
      (CStr ''Begin_Date=2020-xx-01;End_Date=2020-03-31''))) = Inl ValueError
   \<and> header_row (TitleMasterReport (put_cell example_sheet 10 2
      (CStr ''Begin_Date=2020-xx-01''))) = Inl ValueError
   \<and> header_row (TitleMasterReport (put_cell example_sheet 10 2
      (CStr ''Begin_Date=2020-01-01;End_Date=2020-xx-31''))) = Inl ValueError"
proof -
  let ?r1 = "TitleMasterReport (put_cell example_sheet 10 2
      (CStr ''Begin_Date=2020-xx-01;End_Date=2020-03-31''))"
  let ?r2 = "TitleMasterReport (put_cell example_sheet 10 2 (CStr ''Begin_Date=2020-xx-01''))"
  let ?r3 = "TitleMasterReport (put_cell example_sheet 10 2
      (CStr ''Begin_Date=2020-01-01;End_Date=2020-xx-31''))"
  have l: "(''TR_J1'', 11) \<in> {(''TR_J1'', 11), (''TR_J3'', 12), (''TR_B1'', 13), (''TR_B3'', 14 :: nat)}"
    by simp
  have "''Begin_Date=2020-xx-01;End_Date=2020-03-31'' =
      ''Begin_Date'' @ ''='' @ ''2020-xx-01'' @ '';'' @ ''End_Date'' @ ''='' @ ''2020-03-31''"
    and "CHR '';'' \<notin> set (''Begin_Date'' @ ''2020-xx-01'' @ ''End_Date'' @ ''2020-03-31'')"
    and "CHR ''='' \<notin> set (''Begin_Date'' @ ''2020-xx-01'' @ ''End_Date'' @ ''2020-03-31'')"
    by simp_all
  note ex1 = example_with_period [OF this]
  have "''Begin_Date=2020-01-01;End_Date=2020-xx-31'' =
      ''Begin_Date'' @ ''='' @ ''2020-01-01'' @ '';'' @ ''End_Date'' @ ''='' @ ''2020-xx-31''"
    and "CHR '';'' \<notin> set (''Begin_Date'' @ ''2020-01-01'' @ ''End_Date'' @ ''2020-xx-31'')"
    and "CHR ''='' \<notin> set (''Begin_Date'' @ ''2020-01-01'' @ ''End_Date'' @ ''2020-xx-31'')"
    by simp_all
  note ex3 = example_with_period [OF this]
  have id2: "report_id ?r2 = CStr ''TR_J1''"
    by (simp add: report_id_def TitleMasterReport_def put_cell_def example_layout)
  have b2: "begin_date ?r2 = Inr ''2020-xx-01''"
    by (simp add: py_split.simps begin_date_def TitleMasterReport_def put_cell_def py_index_def)
  have "ws_cell (r_worksheet ?r2) HEADER_ROW = ws_cell example_sheet HEADER_ROW"
    by (simp add: TitleMasterReport_def put_cell_def HEADER_ROW_def fun_eq_iff)
  then have t2: "map (ws_cell (r_worksheet ?r2) HEADER_ROW) [1..<Suc 11] =
      map CStr (take 11 example_titles)"
    by (simp only: example_title_cells)
  have 1: "header_row ?r1 = Inl ValueError"
    using header_row_month_digits [OF l ex1(1) ex1(4) ex1(2)] by (simp add: month_digits)
  have 2: "header_row ?r2 = Inl ValueError"
    using header_row_month_digits [OF l id2 t2 b2] by (simp add: month_digits)
  have 3: "header_row ?r3 = Inl ValueError"
    using header_row_month_digits [OF l ex3(1) ex3(4) ex3(2)] ex3(3)
    by (simp add: month_digits)
  from 1 2 3 show ?thesis by blast
qed

text \<open>
  The claim as it is written asks for a failure when the month is an integer outside
  1 to 12. With the begin month 13 a header is returned, without any month.
\<close>

theorem header_row_month_thirteen:
  "py_int (py_slice ''2020-13-01'' 5 7) = Inr 13
   \<and> header_row (TitleMasterReport (put_cell example_sheet 10 2
      (CStr ''Begin_Date=2020-13-01;End_Date=2020-12-31''))) =
     Inr [''title'', ''publisher'', ''publisher_id'', ''platform'', ''doi'', ''proprietary_id'',
       ''print_issn'', ''online_issn'', ''uri'', ''metric_type'', ''reporting_period_total'']"
proof -
  let ?rpt = "TitleMasterReport (put_cell example_sheet 10 2
      (CStr ''Begin_Date=2020-13-01;End_Date=2020-12-31''))"
  have "''Begin_Date=2020-13-01;End_Date=2020-12-31'' =
      ''Begin_Date'' @ ''='' @ ''2020-13-01'' @ '';'' @ ''End_Date'' @ ''='' @ ''2020-12-31''"
    and "CHR '';'' \<notin> set (''Begin_Date'' @ ''2020-13-01'' @ ''End_Date'' @ ''2020-12-31'')"
    and "CHR ''='' \<notin> set (''Begin_Date'' @ ''2020-13-01'' @ ''End_Date'' @ ''2020-12-31'')"
    by simp_all
  note ex = example_with_period [OF this]
  have c: "col (report_id ?rpt) = Some 11"
    unfolding ex(1) by (simp add: col_def)
  have "py_slice PERIODS 13 (12 + 1) = []"
    by (simp add: py_slice_def slice_bound_def PERIODS_def)
  with header_row_text [OF c ex(2) ex(3) month_digits(5) month_digits(6) ex(4)]
  show ?thesis
    unfolding lower_titles by (simp add: month_digits)
qed

subsection \<open>Probing the extent\<close>

lemma count_filled_single:
  "count_filled r (map (\<lambda>i. Inr [f i]) xs) =
   Inr (r + length (takeWhile (\<lambda>i. f i \<noteq> CNone) xs))"
  by (induction xs arbitrary: r) simp_all

lemma upt_takeWhile:
  assumes "a \<le> b"
  shows "[a..<a + length (takeWhile P [a..<b])] = takeWhile P [a..<b]"
proof -
  let ?n = "length (takeWhile P [a..<b])"
  have "?n \<le> length [a..<b]"
    by (rule length_takeWhile_le)
  with assms have "a + ?n \<le> b" by simp
  then have "take ?n [a..<b] = [a..<a + ?n]"
    by (rule take_upt)
  then show ?thesis
    using takeWhile_eq_take [of P "[a..<b]"] by simp
qed

lemma takeWhile_upt_stop:
  assumes "a \<le> m" and "m < b" and "\<forall>i. a \<le> i \<and> i < m \<longrightarrow> P i" and "\<not> P m"
  shows "takeWhile P [a..<b] = [a..<m]"
proof -
  have "[a..<b] = [a..<m] @ m # [Suc m..<b]"
  proof -
    have "[a..<b] = [a..<m] @ [m..<b]"
      using assms(1,2) upt_add_eq_append [of a m "b - m"] by simp
    also have "[m..<b] = m # [Suc m..<b]"
      using assms(2) by (rule upt_conv_Cons)
    finally show ?thesis .
  qed
  moreover have "takeWhile P ([a..<m] @ m # [Suc m..<b]) = [a..<m]"
  proof -
    have "takeWhile P ([a..<m] @ m # [Suc m..<b]) = [a..<m] @ takeWhile P (m # [Suc m..<b])"
      using assms(3) by (intro takeWhile_append2) simp
    with assms(4) show ?thesis by simp
  qed
  ultimately show ?thesis by simp
qed

lemma data_rows_takeWhile:
  "data_rows rpt =
   Inr (takeWhile (\<lambda>r. ws_cell (r_worksheet rpt) r 1 \<noteq> CNone) [15..<Suc MAX_ROWS])"
proof -
  have rows: "iter_rows (r_worksheet rpt) 15 1 MAX_ROWS 1 =
      map (\<lambda>r. Inr [ws_cell (r_worksheet rpt) r 1]) [15..<Suc MAX_ROWS]"
    by (rule iter_rows_one_col) (simp_all add: MAX_ROWS_def)
  have "15 \<le> Suc MAX_ROWS"
    by (simp add: MAX_ROWS_def)
  from upt_takeWhile [OF this] show ?thesis
    unfolding data_rows_def DATA_ROW_START_def rows count_filled_single sum.case
    by (simp only:)
qed

lemma data_cols_takeWhile:
  "data_cols rpt =
   Inr (takeWhile (\<lambda>c. ws_cell (r_worksheet rpt) 14 c \<noteq> CNone) [1..<Suc MAX_COLS])"
proof -
  have cols: "iter_cols (r_worksheet rpt) 14 1 14 MAX_COLS =
      map (\<lambda>c. Inr [ws_cell (r_worksheet rpt) 14 c]) [1..<Suc MAX_COLS]"
    by (rule iter_cols_one_row) (simp_all add: MAX_COLS_def)
  have "1 \<le> Suc MAX_COLS"
    by simp
  from upt_takeWhile [OF this] show ?thesis
    unfolding data_cols_def DATA_COL_START_def HEADER_ROW_def cols count_filled_single sum.case
    by (simp only:)
qed

lemma data_rows_extent:
  assumes "15 \<le> m" and "m \<le> MAX_ROWS"
    and "\<forall>r. 15 \<le> r \<and> r < m \<longrightarrow> ws_cell (r_worksheet rpt) r 1 \<noteq> CNone"
    and "ws_cell (r_worksheet rpt) m 1 = CNone"
  shows "data_rows rpt = Inr [15..<m]"
proof -
  have "takeWhile (\<lambda>r. ws_cell (r_worksheet rpt) r 1 \<noteq> CNone) [15..<Suc MAX_ROWS] = [15..<m]"
    using assms by (intro takeWhile_upt_stop) simp_all
  then show ?thesis by (simp only: data_rows_takeWhile)
qed

lemma data_cols_extent:
  assumes "1 \<le> m" and "m \<le> MAX_COLS"
    and "\<forall>c. 1 \<le> c \<and> c < m \<longrightarrow> ws_cell (r_worksheet rpt) 14 c \<noteq> CNone"
    and "ws_cell (r_worksheet rpt) 14 m = CNone"
  shows "data_cols rpt = Inr [1..<m]"
proof -
  have "takeWhile (\<lambda>c. ws_cell (r_worksheet rpt) 14 c \<noteq> CNone) [1..<Suc MAX_COLS] = [1..<m]"
    using assms by (intro takeWhile_upt_stop) simp_all
  then show ?thesis by (simp only: data_cols_takeWhile)
qed

lemma data_cols_upt:
  assumes "data_cols rpt = Inr cols"
  shows "cols = [1..<Suc (length cols)]"
proof -
  have "1 \<le> Suc MAX_COLS" by simp
  from upt_takeWhile [OF this, of "\<lambda>c. ws_cell (r_worksheet rpt) 14 c \<noteq> CNone"]
  show ?thesis
    using assms unfolding data_cols_takeWhile by auto
qed

lemma data_cols_first:
  assumes "data_cols rpt = Inr cols" and "ws_cell (r_worksheet rpt) 14 1 \<noteq> CNone"
  shows "cols \<noteq> []"
proof -
  have "[1..<Suc MAX_COLS] = 1 # [Suc 1..<Suc MAX_COLS]"
    by (rule upt_conv_Cons) (simp add: MAX_COLS_def)
  with assms show ?thesis
    unfolding data_cols_takeWhile by auto
qed

subsection \<open>The largest column\<close>

lemma fold_max_upt: "a \<le> b \<Longrightarrow> fold max [Suc a..<Suc b] a = b"
proof (induction b)
  case 0
  then show ?case by simp
next
  case (Suc b)
  show ?case
  proof (cases "a = Suc b")
    case True
    then show ?thesis by simp
  next
    case False
    with Suc.prems have "a \<le> b" by simp
    with Suc.IH show ?thesis by simp
  qed
qed

lemma py_max_upt: "py_max [1..<Suc m] = (if m = 0 then Inl ValueError else Inr m)"
proof (cases "m = 0")
  case True
  then show ?thesis by (simp add: py_max_def)
next
  case False
  then have "[1..<Suc m] = 1 # [Suc 1..<Suc m]"
    by (simp add: upt_conv_Cons)
  moreover from False have "fold max [Suc 1..<Suc m] 1 = m"
    by (intro fold_max_upt) simp
  ultimately show ?thesis using False by (simp add: py_max_def)
qed

lemma py_max_data_cols:
  assumes "data_cols rpt = Inr cols"
  shows "py_max cols = (if cols = [] then Inl ValueError else Inr (length cols))"
  using py_max_upt [of "length cols"] data_cols_upt [OF assms] by auto

subsection \<open>The values of a row\<close>

lemma append_text_values: "append_text datarow cs = datarow @ map cell_text cs"
  by (induction cs arbitrary: datarow) simp_all

lemma append_text_cols_single:
  "append_text_cols datarow (map (\<lambda>c. Inr [f c]) cs) =
   Inr (datarow @ map (\<lambda>c. cell_text (f c)) cs)"
  by (induction cs arbitrary: datarow) (simp_all add: append_text_values)

lemma row_values_read:
  assumes "0 < n" and "n \<le> MAX_ROWS" and "0 < m"
  shows "append_text_cols [] (iter_cols ws n 1 n m) =
    Inr (map (\<lambda>c. cell_text (ws_cell ws n c)) [1..<Suc m])"
proof -
  have "iter_cols ws n 1 n m = map (\<lambda>c. Inr [ws_cell ws n c]) [1..<Suc m]"
    using assms by (intro iter_cols_one_row) (simp_all add: MAX_ROWS_def)
  then show ?thesis
    by (simp only: append_text_cols_single append_Nil)
qed

lemma row_above_limit:
  assumes "MAX_ROWS < n" and "0 < m"
  shows "append_text_cols [] (iter_cols ws n 1 n m) = Inl ValueError"
proof -
  have "[1..<Suc m] = 1 # [Suc 1..<Suc m]"
    using assms(2) by (intro upt_conv_Cons) simp
  then show ?thesis
    using assms by (simp add: iter_cols_def bound_or_def MAX_ROWS_def)
qed

subsection \<open>Sheets like the example\<close>

lemma header_row_like_example:
  assumes "ws_cell ws 2 2 = CStr ''TR_J1''"
    and "ws_cell ws 10 2 = CStr ''Begin_Date=2020-01-01;End_Date=2020-03-31''"
    and "map (ws_cell ws HEADER_ROW) [1..<Suc 11] = map CStr titles"
  shows "header_row (TitleMasterReport ws) = Inr (map py_lower titles @ [''jan'', ''feb'', ''mar''])"
proof -
  let ?rpt = "TitleMasterReport ws"
  have c: "col (report_id ?rpt) = Some 11"
    by (simp add: report_id_def TitleMasterReport_def assms(1) col_def)
  have "r_reporting_period ?rpt =
      CStr (''Begin_Date'' @ ''='' @ ''2020-01-01'' @ '';'' @ ''End_Date'' @ ''='' @ ''2020-03-31'')"
    by (simp add: TitleMasterReport_def assms(2))
  then have d: "begin_date ?rpt = Inr ''2020-01-01'' \<and> end_date ?rpt = Inr ''2020-03-31''"
    by (rule period_dates [rotated 2]) simp_all
  have t: "map (ws_cell (r_worksheet ?rpt) HEADER_ROW) [1..<Suc 11] = map CStr titles"
    using assms(3) by (simp add: TitleMasterReport_def)
  have m: "py_slice PERIODS 1 (3 + 1) = [''jan'', ''feb'', ''mar'']"
    by (simp add: py_slice_def slice_bound_def PERIODS_def)
  from header_row_text [OF c conjunct1 [OF d] conjunct2 [OF d] month_digits(1) month_digits(2) t]
  show ?thesis
    unfolding m .
qed

lemma example_header:
  "header_row (TitleMasterReport example_sheet) =
     Inr [''title'', ''publisher'', ''publisher_id'', ''platform'', ''doi'', ''proprietary_id'',
       ''print_issn'', ''online_issn'', ''uri'', ''metric_type'', ''reporting_period_total'',
       ''jan'', ''feb'', ''mar'']"
proof -
  have "ws_cell example_sheet 10 2 = CStr ''Begin_Date=2020-01-01;End_Date=2020-03-31''"
    by (simp add: example_sheet_def example_cells_def)
  from header_row_like_example [OF example_layout this example_title_cells]
  show ?thesis
    unfolding lower_titles by simp
qed

lemma example_names_ok:
  "namedtuple ''ReportRow''
     [''title'', ''publisher'', ''publisher_id'', ''platform'', ''doi'', ''proprietary_id'',
       ''print_issn'', ''online_issn'', ''uri'', ''metric_type'', ''reporting_period_total'',
       ''jan'', ''feb'', ''mar''] =
   Inr [''title'', ''publisher'', ''publisher_id'', ''platform'', ''doi'', ''proprietary_id'',
       ''print_issn'', ''online_issn'', ''uri'', ''metric_type'', ''reporting_period_total'',
       ''jan'', ''feb'', ''mar'']"
  by code_simp

lemma example_data_cols: "data_cols (TitleMasterReport example_sheet) = Inr [1..<15]"
  by (rule data_cols_extent)
    (auto simp: MAX_COLS_def TitleMasterReport_def example_sheet_def example_cells_def)

subsection \<open>What a header that was returned tells\<close>

lemma header_row_cells:
  assumes "header_row rpt = Inr h"
  shows "\<exists>k titles months. 11 \<le> k
    \<and> map (ws_cell (r_worksheet rpt) HEADER_ROW) [1..<Suc k] = map CStr titles
    \<and> length titles = k \<and> h = map py_lower titles @ months"
proof -
  from assms obtain k where k: "col (report_id rpt) = Some k"
    unfolding header_row_def by (auto split: option.splits)
  from col_at_least [OF k] have "0 < k" by simp
  note t = title_columns [OF this]
  from assms obtain header months
    where a: "append_lower [] (map (ws_cell (r_worksheet rpt) HEADER_ROW) [1..<Suc k]) = Inr header"
      and h: "h = header @ months"
    unfolding header_row_def k option.case t by (auto split: sum.splits)
  from append_lower_returns [OF a] obtain titles
    where t: "map (ws_cell (r_worksheet rpt) HEADER_ROW) [1..<Suc k] = map CStr titles"
      and hd: "header = map py_lower titles"
    by auto
  have "length titles = k"
  proof -
    from t have "length (map (ws_cell (r_worksheet rpt) HEADER_ROW) [1..<Suc k])
        = length (map CStr titles)"
      by (rule arg_cong)
    then show ?thesis by (simp del: upt_Suc)
  qed
  with col_at_least [OF k] t h hd show ?thesis by blast
qed

lemma header_row_length:
  assumes "header_row rpt = Inr h"
  shows "11 \<le> length h"
  using header_row_cells [OF assms] by auto

lemma header_row_first_cell:
  assumes "header_row rpt = Inr h"
  shows "ws_cell (r_worksheet rpt) 14 1 \<noteq> CNone"
proof -
  from header_row_cells [OF assms] obtain k titles
    where k: "11 \<le> k"
      and t: "map (ws_cell (r_worksheet rpt) HEADER_ROW) [1..<Suc k] = map CStr titles"
      and l: "length titles = k"
    by blast
  from k have "[1..<Suc k] = 1 # [Suc 1..<Suc k]"
    by (intro upt_conv_Cons) simp
  with t obtain s where "ws_cell (r_worksheet rpt) HEADER_ROW 1 = CStr s"
    by (cases titles) auto
  then show ?thesis by (simp add: HEADER_ROW_def)
qed

text \<open>The columns probed are there once the header is.\<close>

lemma header_row_cols:
  assumes "header_row rpt = Inr h"
  shows "\<exists>cols. data_cols rpt = Inr cols \<and> cols \<noteq> [] \<and> py_max cols = Inr (length cols)"
proof -
  obtain cols where c: "data_cols rpt = Inr cols"
    by (simp add: data_cols_takeWhile)
  from data_cols_first [OF c header_row_first_cell [OF assms]] have "cols \<noteq> []" .
  with py_max_data_cols [OF c] c show ?thesis by simp
qed

subsection \<open>What \<^verbatim>\<open>get_row\<close> comes to\<close>

lemma namedtuple_returns: "namedtuple typename names = Inr row_spec \<Longrightarrow> row_spec = names"
  by (simp add: namedtuple_def split: if_splits)

lemma get_row_header:
  assumes "header_row rpt = Inr h" and "data_cols rpt = Inr cols"
    and "0 < n" and "n \<le> MAX_ROWS"
  shows "get_row rpt n =
    (case namedtuple ''ReportRow'' h of
       Inl e \<Rightarrow> Inl e
     | Inr row_spec \<Rightarrow>
         if length cols \<noteq> length h then Inl TypeError
         else Inr \<lparr>row_fields = h,
           row_values = map (\<lambda>c. cell_text (ws_cell (r_worksheet rpt) n c)) [1..<Suc (length h)]\<rparr>)"
proof (cases "namedtuple ''ReportRow'' h")
  case (Inl e)
  then show ?thesis by (simp add: get_row_def assms(1))
next
  case (Inr row_spec)
  from namedtuple_returns [OF Inr] have rs: "row_spec = h" .
  from header_row_cols [OF assms(1)] assms(2)
  have ne: "cols \<noteq> []" and mx: "py_max cols = Inr (length cols)"
    by auto
  from ne have "0 < length cols" by simp
  note rd = row_values_read [OF assms(3,4) this]
  show ?thesis
    unfolding get_row_def assms(1,2) Inr rs mx rd sum.case make_def
    by (auto simp del: upt_Suc)
qed

lemma get_row_above_limit:
  assumes "header_row rpt = Inr h" and "MAX_ROWS < n"
  shows "get_row rpt n =
    (case namedtuple ''ReportRow'' h of Inl e \<Rightarrow> Inl e | Inr row_spec \<Rightarrow> Inl ValueError)"
proof -
  from header_row_cols [OF assms(1)] obtain cols
    where c: "data_cols rpt = Inr cols" and ne: "cols \<noteq> []"
      and mx: "py_max cols = Inr (length cols)"
    by blast
  from ne have "0 < length cols" by simp
  note rd = row_above_limit [OF assms(2) this]
  show ?thesis
    unfolding get_row_def assms(1) c mx rd sum.case
    by (simp split: sum.splits)
qed

subsection \<open>The rows and columns that hold data\<close>

text \<open>
  Claim C4. \<^verbatim>\<open>data_rows\<close> returns the consecutive row numbers from row 15 up to, and
  not including, the first row whose cell in column 1 is empty, among the rows 15 to
  \<^verbatim>\<open>MAX_ROWS\<close>; \<^verbatim>\<open>data_cols\<close> returns the consecutive column numbers from column 1
  up to, and not including, the first column whose cell in the header row 14 is
  empty, among the columns 1 to \<^verbatim>\<open>MAX_COLS\<close>. Neither of them fails. With data in rows
  15 to 20 and row 21 blank the rows are 15 to 20; with a blank cell at row 15,
  column 1, there are none.
\<close>

theorem data_extent:
  "data_rows rpt =
     Inr (takeWhile (\<lambda>r. ws_cell (r_worksheet rpt) r 1 \<noteq> CNone) [15..<Suc MAX_ROWS])
   \<and> data_cols rpt =
     Inr (takeWhile (\<lambda>c. ws_cell (r_worksheet rpt) 14 c \<noteq> CNone) [1..<Suc MAX_COLS])
   \<and> ((\<forall>r\<in>{15..20}. ws_cell (r_worksheet rpt) r 1 \<noteq> CNone)
          \<and> ws_cell (r_worksheet rpt) 21 1 = CNone
        \<longrightarrow> data_rows rpt = Inr [15, 16, 17, 18, 19, 20])
   \<and> (ws_cell (r_worksheet rpt) 15 1 = CNone \<longrightarrow> data_rows rpt = Inr [])"
proof -
  have six: "[15..<21] = [15, 16, 17, 18, 19, 20 :: nat]"
    by (simp add: upt_rec)
  have "data_rows rpt = Inr [15, 16, 17, 18, 19, 20]"
    if "(\<forall>r\<in>{15..20}. ws_cell (r_worksheet rpt) r 1 \<noteq> CNone)
      \<and> ws_cell (r_worksheet rpt) 21 1 = CNone"
  proof -
    have "data_rows rpt = Inr [15..<21]"
      using that by (intro data_rows_extent) (simp_all add: MAX_ROWS_def)
    then show ?thesis by (simp only: six)
  qed
  moreover have "data_rows rpt = Inr []" if "ws_cell (r_worksheet rpt) 15 1 = CNone"
  proof -
    have "data_rows rpt = Inr [15..<15]"
      using that by (intro data_rows_extent) (auto simp: MAX_ROWS_def)
    then show ?thesis by simp
  qed
  ultimately show ?thesis
    using data_rows_takeWhile [of rpt] data_cols_takeWhile [of rpt] by blast
qed

text \<open>The example report, and the same report with the first title cell emptied.\<close>

theorem data_extent_witness:
  "data_rows (TitleMasterReport example_sheet) = Inr [15, 16, 17, 18, 19, 20]
   \<and> data_rows (TitleMasterReport (put_cell example_sheet 15 1 CNone)) = Inr []"
proof -
  have 1: "(\<forall>r\<in>{15..20}. ws_cell (r_worksheet (TitleMasterReport example_sheet)) r 1 \<noteq> CNone)
      \<and> ws_cell (r_worksheet (TitleMasterReport example_sheet)) 21 1 = CNone"
    by (auto simp: TitleMasterReport_def example_sheet_def example_cells_def)
  have 2: "ws_cell (r_worksheet (TitleMasterReport (put_cell example_sheet 15 1 CNone))) 15 1
      = CNone"
    by (simp add: TitleMasterReport_def put_cell_def)
  from 1 2 show ?thesis
    using data_extent [of "TitleMasterReport example_sheet"]
      data_extent [of "TitleMasterReport (put_cell example_sheet 15 1 CNone)"]
    by blast
qed

subsection \<open>Rows as records\<close>

text \<open>
  Claim C2, as the code has it. Let \<open>n\<close> be a row number from 1 to 1048576 and let
  \<^verbatim>\<open>_header_row\<close> return a header. The values that \<^verbatim>\<open>get_row(n)\<close> reads are one for
  each column probed. When their number differs from the length of the header,
  \<^verbatim>\<open>get_row(n)\<close> fails: with the error of \<^verbatim>\<open>namedtuple\<close> (ValueError, or SyntaxError
  for two names of one NFKC form) when it does not accept the names of the header, and
  otherwise with the TypeError that \<^verbatim>\<open>_make\<close> raises when the number of its values is
  wrong (the spec's SchemaMismatchError). For a row number above 1048576 \<^verbatim>\<open>get_row\<close>
  fails with the error of \<^verbatim>\<open>namedtuple\<close> or else with the ValueError of openpyxl. For
  every \<open>n\<close>, a record that \<^verbatim>\<open>get_row\<close> returns has the header as its field names and
  one value for each of them.
\<close>

theorem get_row_arity:
  "(\<forall>h cols. 1 \<le> n \<and> n \<le> MAX_ROWS \<and> header_row rpt = Inr h \<and> data_cols rpt = Inr cols \<longrightarrow>
      (\<exists>datarow. py_max cols = Inr (length cols)
         \<and> append_text_cols [] (iter_cols (r_worksheet rpt) n 1 n (length cols)) = Inr datarow
         \<and> length datarow = length cols)
      \<and> (length cols \<noteq> length h \<longrightarrow>
           get_row rpt n =
             (case namedtuple ''ReportRow'' h of
                Inl e \<Rightarrow> Inl e
              | Inr row_spec \<Rightarrow> Inl TypeError)))
   \<and> (\<forall>h. MAX_ROWS < n \<and> header_row rpt = Inr h \<longrightarrow>
        get_row rpt n =
          (case namedtuple ''ReportRow'' h of
             Inl e \<Rightarrow> Inl e
           | Inr row_spec \<Rightarrow> Inl ValueError))
   \<and> (\<forall>h e. namedtuple ''ReportRow'' h = Inl e \<longrightarrow> e = ValueError \<or> e = SyntaxError)
   \<and> (\<forall>row. get_row rpt n = Inr row \<longrightarrow>
        header_row rpt = Inr (row_fields row)
        \<and> length (row_values row) = length (row_fields row))"
proof -
  have a: "(\<exists>datarow. py_max cols = Inr (length cols)
        \<and> append_text_cols [] (iter_cols (r_worksheet rpt) n 1 n (length cols)) = Inr datarow
        \<and> length datarow = length cols)
      \<and> (length cols \<noteq> length h \<longrightarrow>
           get_row rpt n =
             (case namedtuple ''ReportRow'' h of
                Inl e \<Rightarrow> Inl e
              | Inr row_spec \<Rightarrow> Inl TypeError))"
    if "1 \<le> n \<and> n \<le> MAX_ROWS \<and> header_row rpt = Inr h \<and> data_cols rpt = Inr cols"
    for h cols
  proof -
    from that have n: "0 < n" "n \<le> MAX_ROWS"
      and h: "header_row rpt = Inr h" and c: "data_cols rpt = Inr cols"
      by simp_all
    from header_row_cols [OF h] c
    have ne: "cols \<noteq> []" and mx: "py_max cols = Inr (length cols)"
      by auto
    from ne have "0 < length cols" by simp
    from row_values_read [OF n this]
    have "append_text_cols [] (iter_cols (r_worksheet rpt) n 1 n (length cols)) =
        Inr (map (\<lambda>c. cell_text (ws_cell (r_worksheet rpt) n c)) [1..<Suc (length cols)])" .
    moreover have "length (map (\<lambda>c. cell_text (ws_cell (r_worksheet rpt) n c))
        [1..<Suc (length cols)]) = length cols"
      by (simp del: upt_Suc)
    moreover have "get_row rpt n =
        (case namedtuple ''ReportRow'' h of
           Inl e \<Rightarrow> Inl e
         | Inr row_spec \<Rightarrow> Inl TypeError)"
      if "length cols \<noteq> length h"
      unfolding get_row_header [OF h c n] using that by (simp split: sum.splits)
    ultimately show ?thesis using mx by blast
  qed
  have b: "get_row rpt n =
      (case namedtuple ''ReportRow'' h of
         Inl e \<Rightarrow> Inl e
       | Inr row_spec \<Rightarrow> Inl ValueError)"
    if "MAX_ROWS < n \<and> header_row rpt = Inr h" for h
    using that by (intro get_row_above_limit) simp_all
  have c: "e = ValueError \<or> e = SyntaxError" if "namedtuple ''ReportRow'' h = Inl e" for h e
    using that by (auto simp: namedtuple_def split: if_splits)
  have d: "header_row rpt = Inr (row_fields row)
      \<and> length (row_values row) = length (row_fields row)"
    if "get_row rpt n = Inr row" for row
    using that
    by (auto simp: get_row_def make_def dest: namedtuple_returns split: sum.splits if_splits)
  from a b c d show ?thesis by blast
qed

text \<open>
  The example report with one more header cell in column 15: fifteen columns are
  probed and the header has fourteen names.
\<close>

theorem get_row_arity_witness:
  "data_cols (TitleMasterReport (put_cell example_sheet 14 15 (CStr ''Apr-2020''))) = Inr [1..<16]
   \<and> get_row (TitleMasterReport (put_cell example_sheet 14 15 (CStr ''Apr-2020''))) 15
     = Inl TypeError
   \<and> get_row (TitleMasterReport (put_cell example_sheet 14 15 (CStr ''Apr-2020''))) 1048577
     = Inl ValueError"
proof -
  let ?ws = "put_cell example_sheet 14 15 (CStr ''Apr-2020'')"
  let ?h = "[''title'', ''publisher'', ''publisher_id'', ''platform'', ''doi'', ''proprietary_id'',
       ''print_issn'', ''online_issn'', ''uri'', ''metric_type'', ''reporting_period_total'',
       ''jan'', ''feb'', ''mar'']"
  have "map (ws_cell ?ws HEADER_ROW) [1..<Suc 11] = map (ws_cell example_sheet HEADER_ROW) [1..<Suc 11]"
    by (rule map_cong) (auto simp: put_cell_def)
  then have "ws_cell ?ws 2 2 = CStr ''TR_J1''"
    and "ws_cell ?ws 10 2 = CStr ''Begin_Date=2020-01-01;End_Date=2020-03-31''"
    and "map (ws_cell ?ws HEADER_ROW) [1..<Suc 11] = map CStr (take 11 example_titles)"
    by (simp_all only: example_title_cells)
      (simp_all add: put_cell_def example_sheet_def example_cells_def)
  from header_row_like_example [OF this]
  have h: "header_row (TitleMasterReport ?ws) = Inr ?h"
    unfolding lower_titles by simp
  have dc: "data_cols (TitleMasterReport ?ws) = Inr [1..<16]"
    by (rule data_cols_extent)
      (auto simp: MAX_COLS_def TitleMasterReport_def example_sheet_def example_cells_def
        put_cell_def)
  have "1 \<le> (15::nat) \<and> 15 \<le> MAX_ROWS \<and> header_row (TitleMasterReport ?ws) = Inr ?h
      \<and> data_cols (TitleMasterReport ?ws) = Inr [1..<16]"
    using h dc by (simp add: MAX_ROWS_def)
  with get_row_arity [of 15 "TitleMasterReport ?ws"]
  have "length [1..<16 :: nat] \<noteq> length ?h \<longrightarrow>
      get_row (TitleMasterReport ?ws) 15 =
        (case namedtuple ''ReportRow'' ?h of Inl e \<Rightarrow> Inl e | Inr row_spec \<Rightarrow> Inl TypeError)"
    by blast
  then have 1: "get_row (TitleMasterReport ?ws) 15 = Inl TypeError"
    by (simp add: example_names_ok)
  have "MAX_ROWS < 1048577 \<and> header_row (TitleMasterReport ?ws) = Inr ?h"
    using h by (simp add: MAX_ROWS_def)
  with get_row_arity [of 1048577 "TitleMasterReport ?ws"]
  have "get_row (TitleMasterReport ?ws) 1048577 =
      (case namedtuple ''ReportRow'' ?h of Inl e \<Rightarrow> Inl e | Inr row_spec \<Rightarrow> Inl ValueError)"
    by blast
  then have 2: "get_row (TitleMasterReport ?ws) 1048577 = Inl ValueError"
    by (simp add: example_names_ok)
  from dc 1 2 show ?thesis by blast
qed

text \<open>
  The claim as it is written names one error for every mismatch. When the header row
  names a column twice, here \<^verbatim>\<open>Title\<close> in columns 1 and 2, and has one more cell in
  column 15, fifteen columns are probed for a header of fourteen names, and
  \<^verbatim>\<open>get_row(15)\<close> fails with the ValueError of \<^verbatim>\<open>namedtuple\<close>, which is raised before
  any value is read.
\<close>

theorem get_row_duplicate_and_extra:
  "header_row (TitleMasterReport
       (put_cell (put_cell example_sheet 14 2 (CStr ''Title'')) 14 15 (CStr ''Apr-2020''))) =
     Inr [''title'', ''title'', ''publisher_id'', ''platform'', ''doi'', ''proprietary_id'',
       ''print_issn'', ''online_issn'', ''uri'', ''metric_type'', ''reporting_period_total'',
       ''jan'', ''feb'', ''mar'']
   \<and> data_cols (TitleMasterReport
       (put_cell (put_cell example_sheet 14 2 (CStr ''Title'')) 14 15 (CStr ''Apr-2020''))) =
     Inr [1..<16]
   \<and> get_row (TitleMasterReport
       (put_cell (put_cell example_sheet 14 2 (CStr ''Title'')) 14 15 (CStr ''Apr-2020''))) 15 =
     Inl ValueError"
proof -
  let ?ws = "put_cell (put_cell example_sheet 14 2 (CStr ''Title'')) 14 15 (CStr ''Apr-2020'')"
  let ?titles = "[''Title'', ''Title'', ''Publisher_ID'', ''Platform'', ''DOI'',
     ''Proprietary_ID'', ''Print_ISSN'', ''Online_ISSN'', ''URI'', ''Metric_Type'',
     ''Reporting_Period_Total'']"
  let ?h = "[''title'', ''title'', ''publisher_id'', ''platform'', ''doi'', ''proprietary_id'',
       ''print_issn'', ''online_issn'', ''uri'', ''metric_type'', ''reporting_period_total'',
       ''jan'', ''feb'', ''mar'']"
  have "ws_cell ?ws 2 2 = CStr ''TR_J1''"
    and "ws_cell ?ws 10 2 = CStr ''Begin_Date=2020-01-01;End_Date=2020-03-31''"
    and "map (ws_cell ?ws HEADER_ROW) [1..<Suc 11] = map CStr ?titles"
    by (simp_all add: put_cell_def example_sheet_def example_cells_def example_titles_def
        HEADER_ROW_def upt_rec)
  from header_row_like_example [OF this]
  have "header_row (TitleMasterReport ?ws) = Inr (map py_lower ?titles @ [''jan'', ''feb'', ''mar''])" .
  also have "map py_lower ?titles @ [''jan'', ''feb'', ''mar''] = ?h"
    by code_simp
  finally have h: "header_row (TitleMasterReport ?ws) = Inr ?h" .
  have dc: "data_cols (TitleMasterReport ?ws) = Inr [1..<16]"
    by (rule data_cols_extent)
      (auto simp: MAX_COLS_def TitleMasterReport_def example_sheet_def example_cells_def
        put_cell_def)
  have "namedtuple ''ReportRow'' ?h = Inl ValueError"
    by (simp add: namedtuple_def field_names_ok_def)
  then have "get_row (TitleMasterReport ?ws) 15 = Inl ValueError"
    by (simp add: get_row_def h)
  with h dc show ?thesis by blast
qed

text \<open>
  Claim C3, as the code has it. Let \<open>n\<close> be a row number from 1 to 1048576, let the
  header of \<^verbatim>\<open>_header_row\<close> have \<open>N\<close> names that \<^verbatim>\<open>namedtuple\<close> accepts as field names
  (each an identifier and no keyword, none starting with an underscore, no two of them
  equal, also in their NFKC form), and let the number of columns probed be \<open>N\<close>. Then
  \<^verbatim>\<open>get_row(n)\<close> returns a record whose field names are the header and whose values
  are, position for position, the empty string for a missing cell and otherwise the
  text of \<^verbatim>\<open>str\<close> of the cell with every double quote removed.
\<close>

theorem get_row_record:
  assumes "1 \<le> n" and "n \<le> MAX_ROWS"
    and "header_row rpt = Inr h"
    and "field_names_ok ''ReportRow'' h" and "distinct (map nfkc h)"
    and "data_cols rpt = Inr cols" and "length cols = length h"
  shows "\<exists>row. get_row rpt n = Inr row \<and> row_fields row = h
           \<and> length (row_values row) = length h
           \<and> (\<forall>i<length h. row_values row ! i =
                (if ws_cell (r_worksheet rpt) n (Suc i) = CNone then []
                 else filter (\<lambda>c. c \<noteq> char_of (34 :: nat))
                        (py_str (ws_cell (r_worksheet rpt) n (Suc i)))))"
proof -
  let ?vs = "map (\<lambda>c. cell_text (ws_cell (r_worksheet rpt) n c)) [1..<Suc (length h)]"
  from assms(1) have n: "0 < n" by simp
  from assms(4,5) have "namedtuple ''ReportRow'' h = Inr h"
    by (simp add: namedtuple_def)
  with assms(7) have g: "get_row rpt n = Inr \<lparr>row_fields = h, row_values = ?vs\<rparr>"
    by (simp del: upt_Suc add: get_row_header [OF assms(3,6) n assms(2)])
  have "?vs ! i =
      (if ws_cell (r_worksheet rpt) n (Suc i) = CNone then []
       else filter (\<lambda>c. c \<noteq> char_of (34 :: nat)) (py_str (ws_cell (r_worksheet rpt) n (Suc i))))"
    if "i < length h" for i
    using that by (simp del: upt_Suc add: nth_map_upt cell_text_def remove_quotes_def)
  moreover have "length ?vs = length h"
    by (simp del: upt_Suc)
  ultimately show ?thesis
    using g by (intro exI [where x = "\<lparr>row_fields = h, row_values = ?vs\<rparr>"]) simp
qed

text \<open>Row 15 of the example report.\<close>

theorem get_row_record_witness:
  "get_row (TitleMasterReport example_sheet) 15 =
     Inr \<lparr>row_fields =
           [''title'', ''publisher'', ''publisher_id'', ''platform'', ''doi'', ''proprietary_id'',
            ''print_issn'', ''online_issn'', ''uri'', ''metric_type'', ''reporting_period_total'',
            ''jan'', ''feb'', ''mar''],
         row_values =
           [''The Lancet'', ''x'', ''x'', ''x'', [], ''x'', ''x'', ''x'', ''x'', ''x'', ''42'',
            ''42'', ''42'', ''42'']\<rparr>"
proof -
  let ?rpt = "TitleMasterReport example_sheet"
  let ?h = "[''title'', ''publisher'', ''publisher_id'', ''platform'', ''doi'', ''proprietary_id'',
       ''print_issn'', ''online_issn'', ''uri'', ''metric_type'', ''reporting_period_total'',
       ''jan'', ''feb'', ''mar'']"
  let ?v = "\<lambda>i. if example_cells 15 (Suc i) = CNone then []
       else filter (\<lambda>c. c \<noteq> char_of (34 :: nat)) (py_str (example_cells 15 (Suc i)))"
  have n: "(1::nat) \<le> 15" "15 \<le> MAX_ROWS"
    by (simp_all add: MAX_ROWS_def)
  have ok: "field_names_ok ''ReportRow'' ?h" and nd: "distinct (map nfkc ?h)"
    using example_names_ok by (simp_all add: namedtuple_def split: if_splits)
  have l: "length [1..<15 :: nat] = length ?h"
    by simp
  from get_row_record [OF n example_header ok nd example_data_cols l] obtain row
    where g: "get_row ?rpt 15 = Inr row"
      and f: "row_fields row = ?h"
      and len: "length (row_values row) = 14"
      and v: "\<forall>i<14. row_values row ! i = ?v i"
    by (auto simp: TitleMasterReport_def example_sheet_def)
  have "row_values row = map ?v [0..<14]"
    using len v by (intro nth_equalityI) simp_all
  also have "map ?v [0..<14] =
      [''The Lancet'', ''x'', ''x'', ''x'', [], ''x'', ''x'', ''x'', ''x'', ''x'', ''42'',
       ''42'', ''42'', ''42'']"
    by code_simp
  finally have "row = \<lparr>row_fields = ?h, row_values =
      [''The Lancet'', ''x'', ''x'', ''x'', [], ''x'', ''x'', ''x'', ''x'', ''x'', ''42'',
       ''42'', ''42'', ''42'']\<rparr>"
    using f by (cases row) simp
  with g show ?thesis by simp
qed

text \<open>
  The claim as it is written has no condition on the names. When the header row names
  a column twice, here \<^verbatim>\<open>Title\<close> in columns 1 and 2, row 15 is a data row and the
  fourteen columns probed match the fourteen names of the header, and \<^verbatim>\<open>get_row(15)\<close>
  fails with the ValueError of \<^verbatim>\<open>namedtuple\<close>.
\<close>

theorem get_row_duplicate_titles:
  "data_rows (TitleMasterReport (put_cell example_sheet 14 2 (CStr ''Title''))) =
     Inr [15, 16, 17, 18, 19, 20]
   \<and> header_row (TitleMasterReport (put_cell example_sheet 14 2 (CStr ''Title''))) =
       Inr [''title'', ''title'', ''publisher_id'', ''platform'', ''doi'', ''proprietary_id'',
         ''print_issn'', ''online_issn'', ''uri'', ''metric_type'', ''reporting_period_total'',
         ''jan'', ''feb'', ''mar'']
   \<and> data_cols (TitleMasterReport (put_cell example_sheet 14 2 (CStr ''Title''))) =
       Inr [1, 2, 3, 4, 5, 6, 7, 8, 9, 10, 11, 12, 13, 14]
   \<and> get_row (TitleMasterReport (put_cell example_sheet 14 2 (CStr ''Title''))) 15
       = Inl ValueError"
proof -
  let ?ws = "put_cell example_sheet 14 2 (CStr ''Title'')"
  let ?titles = "[''Title'', ''Title'', ''Publisher_ID'', ''Platform'', ''DOI'',
     ''Proprietary_ID'', ''Print_ISSN'', ''Online_ISSN'', ''URI'', ''Metric_Type'',
     ''Reporting_Period_Total'']"
  let ?h = "[''title'', ''title'', ''publisher_id'', ''platform'', ''doi'', ''proprietary_id'',
       ''print_issn'', ''online_issn'', ''uri'', ''metric_type'', ''reporting_period_total'',
       ''jan'', ''feb'', ''mar'']"
  have "ws_cell ?ws 2 2 = CStr ''TR_J1''"
    and "ws_cell ?ws 10 2 = CStr ''Begin_Date=2020-01-01;End_Date=2020-03-31''"
    and "map (ws_cell ?ws HEADER_ROW) [1..<Suc 11] = map CStr ?titles"
    by (simp_all add: put_cell_def example_sheet_def example_cells_def example_titles_def
        HEADER_ROW_def upt_rec)
  from header_row_like_example [OF this]
  have "header_row (TitleMasterReport ?ws) = Inr (map py_lower ?titles @ [''jan'', ''feb'', ''mar''])" .
  also have "map py_lower ?titles @ [''jan'', ''feb'', ''mar''] = ?h"
    by code_simp
  finally have h: "header_row (TitleMasterReport ?ws) = Inr ?h" .
  have "data_rows (TitleMasterReport ?ws) = Inr [15..<21]"
    by (rule data_rows_extent)
      (auto simp: MAX_ROWS_def TitleMasterReport_def example_sheet_def example_cells_def
        put_cell_def)
  then have dr: "data_rows (TitleMasterReport ?ws) = Inr [15, 16, 17, 18, 19, 20]"
    by (simp add: upt_rec)
  have "data_cols (TitleMasterReport ?ws) = Inr [1..<15]"
    by (rule data_cols_extent)
      (auto simp: MAX_COLS_def TitleMasterReport_def example_sheet_def example_cells_def
        put_cell_def)
  then have dc: "data_cols (TitleMasterReport ?ws) =
      Inr [1, 2, 3, 4, 5, 6, 7, 8, 9, 10, 11, 12, 13, 14]"
    by (simp add: upt_rec)
  have "namedtuple ''ReportRow'' ?h = Inl ValueError"
    by (simp add: namedtuple_def field_names_ok_def)
  then have "get_row (TitleMasterReport ?ws) 15 = Inl ValueError"
    by (simp add: get_row_def h)
  with h dr dc show ?thesis by blast
qed

end
